theory Spec2Isabelle
  imports Main "HOL-Library.AList" "HOL-Library.Signed_Division"
begin

section \<open>Go strings\<close>

text \<open>
  A Go string is a sequence of bytes, here a \<open>string\<close> (a list of 8-bit characters).
  The functions of package \<open>strings\<close> that \<open>slack.go\<close> calls are written out on byte
  lists, under their Go names. \<open>Index\<close> returns \<open>None\<close> where Go returns \<open>-1\<close>.
\<close>

fun HasPrefix :: "string \<Rightarrow> string \<Rightarrow> bool" where
  "HasPrefix s [] = True"
| "HasPrefix [] (p # ps) = False"
| "HasPrefix (x # xs) (p # ps) = (x = p \<and> HasPrefix xs ps)"

fun Index :: "string \<Rightarrow> string \<Rightarrow> nat option" where
  "Index [] sep = (if sep = [] then Some 0 else None)"
| "Index (x # xs) sep =
     (if HasPrefix (x # xs) sep then Some 0 else map_option Suc (Index xs sep))"

text \<open>The slice expression \<open>s[lo:hi]\<close>; every use below has \<open>lo \<le> hi \<le> len(s)\<close>.\<close>

definition slice :: "string \<Rightarrow> nat \<Rightarrow> nat \<Rightarrow> string" where
  "slice s lo hi = take (hi - lo) (drop lo s)"

lemma Index_Some_less: "Index s [c] = Some i \<Longrightarrow> i < length s"
  by (induction s arbitrary: i) (auto split: if_splits)

lemma Index_notin: "c \<notin> set s \<Longrightarrow> Index s [c] = None"
  by (induction s) auto

lemma Index_first: "c \<notin> set pre \<Longrightarrow> Index (pre @ c # rest) [c] = Some (length pre)"
  by (induction pre) auto

lemma Index_append:
  "c \<notin> set pre \<Longrightarrow> Index (pre @ s) [c] = map_option (\<lambda>i. length pre + i) (Index s [c])"
proof (induction pre)
  case Nil
  show ?case by (cases "Index s [c]") auto
next
  case (Cons a pre)
  then show ?case by (cases "Index s [c]") auto
qed


section \<open>The link stripper\<close>

text \<open>
  \<open>stripLinks\<close> (slack.go, lines 579 to 604). The \<open>strings.Builder\<close> is the
  accumulator \<open>b\<close>; one call of \<open>stripLinks_loop\<close> is one turn of the \<open>for\<close> loop.
  The test \<open>pipe == -1 || pipe > close\<close> is the \<open>None\<close> case together with the first
  branch of the \<open>if\<close>.
\<close>

function stripLinks_loop :: "string \<Rightarrow> string \<Rightarrow> string" where
  "stripLinks_loop b input =
     (case Index input ''<'' of
        None \<Rightarrow> b @ input
      | Some open \<Rightarrow>
          (case Index (drop open input) ''>'' of
             None \<Rightarrow> b @ input
           | Some close \<Rightarrow>
               (case Index (drop open input) ''|'' of
                  None \<Rightarrow>
                    stripLinks_loop
                      (b @ slice input 0 open @ slice input (open + 1) (open + close))
                      (drop (open + close + 1) input)
                | Some pipe \<Rightarrow>
                    if pipe > close then
                      stripLinks_loop
                        (b @ slice input 0 open @ slice input (open + 1) (open + close))
                        (drop (open + close + 1) input)
                    else
                      stripLinks_loop
                        (b @ slice input 0 open @ slice input (open + pipe + 1) (open + close))
                        (drop (open + close + 1) input))))"
  by pat_completeness auto
termination
  by (relation "measure (\<lambda>(b, input). length input)")
     (auto dest: Index_Some_less)

declare stripLinks_loop.simps [simp del]

definition stripLinks :: "string \<Rightarrow> string" where
  "stripLinks input = stripLinks_loop [] input"

lemma stripLinks_loop_acc: "stripLinks_loop b input = b @ stripLinks_loop [] input"
proof (induction "length input" arbitrary: b input rule: less_induct)
  case less
  have shorter: "length (drop (Suc n) input) < length input"
    if "Index input ''<'' = Some k" for n k
    using Index_Some_less[OF that] by simp
  show ?case
  proof (cases "Index input ''<''")
    case None
    then show ?thesis
      by (simp add: stripLinks_loop.simps[of _ input])
  next
    case (Some opn)
    note IH = less[OF shorter[OF Some]]
    show ?thesis
      apply (subst stripLinks_loop.simps[of b input])
      apply (subst stripLinks_loop.simps[of "[]" input])
      apply (simp add: Some split: option.splits)
      apply (intro conjI impI allI)
      apply (subst IH, subst (2) IH, simp)+
      done
  qed
qed

lemma stripLinks_plain: "CHR ''<'' \<notin> set s \<Longrightarrow> stripLinks s = s"
  by (simp add: stripLinks_def stripLinks_loop.simps[of _ s] Index_notin)

lemma stripLinks_unterminated:
  assumes "CHR ''<'' \<notin> set pre" "CHR ''>'' \<notin> set r"
  shows "stripLinks (pre @ CHR ''<'' # r) = pre @ CHR ''<'' # r"
  using assms
  by (simp add: stripLinks_def stripLinks_loop.simps[of _ "pre @ CHR ''<'' # r"]
      Index_first Index_notin)

lemma stripLinks_target:
  assumes "CHR ''<'' \<notin> set pre" "CHR ''>'' \<notin> set t" "CHR ''|'' \<notin> set t"
  shows "stripLinks (pre @ ''<'' @ t @ ''>'' @ rest) = pre @ t @ stripLinks rest"
proof -
  let ?tail = "CHR ''<'' # t @ CHR ''>'' # rest"
  have opn: "Index (pre @ ?tail) ''<'' = Some (length pre)"
    using assms(1) by (simp add: Index_first)
  have cls: "Index ?tail ''>'' = Some (Suc (length t))"
    using assms(2) Index_first[of "CHR ''>''" "CHR ''<'' # t" rest] by simp
  have pip: "Index ?tail ''|'' = None \<or>
      (\<exists>p. Index ?tail ''|'' = Some p \<and> p > Suc (length t))"
    using assms(3) Index_append[of "CHR ''|''" "CHR ''<'' # t @ ''>''" rest]
    by (cases "Index rest ''|''") auto
  have "stripLinks_loop [] (pre @ ?tail) = stripLinks_loop (pre @ t) rest"
    apply (subst stripLinks_loop.simps)
    using pip by (auto simp del: Index.simps simp add: opn cls slice_def)
  then show ?thesis
    by (simp add: stripLinks_def stripLinks_loop_acc[of "pre @ t"])
qed

lemma stripLinks_display:
  assumes "CHR ''<'' \<notin> set pre" "CHR ''>'' \<notin> set t" "CHR ''|'' \<notin> set t"
    "CHR ''>'' \<notin> set d"
  shows "stripLinks (pre @ ''<'' @ t @ ''|'' @ d @ ''>'' @ rest) = pre @ d @ stripLinks rest"
proof -
  let ?tail = "CHR ''<'' # t @ CHR ''|'' # d @ CHR ''>'' # rest"
  have opn: "Index (pre @ ?tail) ''<'' = Some (length pre)"
    using assms(1) by (simp add: Index_first)
  have cls: "Index ?tail ''>'' = Some (Suc (length t) + Suc (length d))"
    using assms(2,4) Index_first[of "CHR ''>''" "CHR ''<'' # t @ CHR ''|'' # d" rest]
    by simp
  have pip: "Index ?tail ''|'' = Some (Suc (length t))"
    using assms(3) Index_first[of "CHR ''|''" "CHR ''<'' # t" "d @ CHR ''>'' # rest"]
    by simp
  have "stripLinks_loop [] (pre @ ?tail) = stripLinks_loop (pre @ d) rest"
    apply (subst stripLinks_loop.simps)
    by (simp del: Index.simps add: opn cls pip slice_def numeral_3_eq_3)
  then show ?thesis
    by (simp add: stripLinks_def stripLinks_loop_acc[of "pre @ d"])
qed

text \<open>
  Claim C5. Reading a text from the left, up to its first \<open><\<close>: a text with no \<open><\<close> is
  returned as it is; a \<open><\<close> with no later \<open>>\<close> ends the scan and the whole text is
  returned as it is; a span \<open><target>\<close> whose target holds no \<open>|\<close> is replaced by the
  target and a span \<open><target|display>\<close> by the display text, in both cases the text
  before the span is kept unchanged and the text after the span is stripped in the same
  way, so that every span is replaced and nothing outside a span changes.
\<close>

theorem stripLinks_spans:
  "(CHR ''<'' \<notin> set s \<longrightarrow> stripLinks s = s) \<and>
   (CHR ''<'' \<notin> set pre \<and> CHR ''>'' \<notin> set r \<longrightarrow>
      stripLinks (pre @ ''<'' @ r) = pre @ ''<'' @ r) \<and>
   (CHR ''<'' \<notin> set pre \<and> CHR ''>'' \<notin> set t \<and> CHR ''|'' \<notin> set t \<longrightarrow>
      stripLinks (pre @ ''<'' @ t @ ''>'' @ rest) = pre @ t @ stripLinks rest) \<and>
   (CHR ''<'' \<notin> set pre \<and> CHR ''>'' \<notin> set t \<and> CHR ''|'' \<notin> set t \<and> CHR ''>'' \<notin> set d \<longrightarrow>
      stripLinks (pre @ ''<'' @ t @ ''|'' @ d @ ''>'' @ rest) = pre @ d @ stripLinks rest)"
proof (intro conjI impI)
  assume "CHR ''<'' \<notin> set s"
  then show "stripLinks s = s" by (rule stripLinks_plain)
next
  assume "CHR ''<'' \<notin> set pre \<and> CHR ''>'' \<notin> set r"
  then show "stripLinks (pre @ ''<'' @ r) = pre @ ''<'' @ r"
    using stripLinks_unterminated[of pre r] by simp
next
  assume "CHR ''<'' \<notin> set pre \<and> CHR ''>'' \<notin> set t \<and> CHR ''|'' \<notin> set t"
  then show "stripLinks (pre @ ''<'' @ t @ ''>'' @ rest) = pre @ t @ stripLinks rest"
    using stripLinks_target[of pre t rest] by blast
next
  assume "CHR ''<'' \<notin> set pre \<and> CHR ''>'' \<notin> set t \<and> CHR ''|'' \<notin> set t \<and> CHR ''>'' \<notin> set d"
  then show "stripLinks (pre @ ''<'' @ t @ ''|'' @ d @ ''>'' @ rest) = pre @ d @ stripLinks rest"
    using stripLinks_display[of pre t d rest] by blast
qed

text \<open>The examples of the specification, obtained from the theorem.\<close>

theorem stripLinks_spans_witness:
  "stripLinks ''<http://x|y> ok'' = ''y ok'' \<and>
   stripLinks ''<http://x> ok'' = ''http://x ok'' \<and>
   stripLinks ''<abc'' = ''<abc'' \<and>
   stripLinks '' ok'' = '' ok''"
proof -
  note inst = stripLinks_spans[where s = "'' ok''" and pre = "[]" and r = "''abc''"
      and t = "''http://x''" and d = "''y''" and rest = "'' ok''"]
  have plain: "stripLinks '' ok'' = '' ok''"
    using inst by simp
  from inst plain show ?thesis by simp
qed


section \<open>More of package strings: Split, Join, TrimSpace\<close>

text \<open>
  \<open>strings.Split(s, sep)\<close> for a non-empty separator: the pieces between the
  occurrences of \<open>sep\<close>, found from the left and not overlapping. (With an empty
  separator Go splits into characters; \<open>slack.go\<close> never passes one.)
\<close>

function Split :: "string \<Rightarrow> string \<Rightarrow> string list" where
  "Split [] sep = [[]]"
| "Split (x # xs) sep =
     (if sep \<noteq> [] \<and> HasPrefix (x # xs) sep
      then [] # Split (drop (length sep) (x # xs)) sep
      else (case Split xs sep of [] \<Rightarrow> [[x]] | p # ps \<Rightarrow> (x # p) # ps))"
  by pat_completeness auto
termination
  by (relation "measure (\<lambda>(s, sep). length s)") auto

fun Join :: "string list \<Rightarrow> string \<Rightarrow> string" where
  "Join [] sep = []"
| "Join [a] sep = a"
| "Join (a # b # rest) sep = a @ sep @ Join (b # rest) sep"

text \<open>
  \<open>strings.TrimSpace\<close> removes the leading and the trailing white space, as Unicode
  defines it (\<open>unicode.IsSpace\<close>), from a string read as UTF-8. \<open>white_space\<close> lists
  the UTF-8 encodings of these code points: U+0009 to U+000D, U+0020, U+0085, U+00A0,
  U+1680, U+2000 to U+200A, U+2028, U+2029, U+202F, U+205F and U+3000.
  \<open>leadingSpace\<close> is the width in bytes of the white space character a string starts
  with (0 if it starts with none), \<open>trailingSpace\<close> of the one it ends with.
\<close>

definition white_space :: "string list" where
  "white_space =
     [[CHR 0x09], [CHR 0x0A], [CHR 0x0B], [CHR 0x0C], [CHR 0x0D], [CHR 0x20],
      [CHR 0xC2, CHR 0x85], [CHR 0xC2, CHR 0xA0],
      [CHR 0xE1, CHR 0x9A, CHR 0x80],
      [CHR 0xE2, CHR 0x80, CHR 0x80], [CHR 0xE2, CHR 0x80, CHR 0x81],
      [CHR 0xE2, CHR 0x80, CHR 0x82], [CHR 0xE2, CHR 0x80, CHR 0x83],
      [CHR 0xE2, CHR 0x80, CHR 0x84], [CHR 0xE2, CHR 0x80, CHR 0x85],
      [CHR 0xE2, CHR 0x80, CHR 0x86], [CHR 0xE2, CHR 0x80, CHR 0x87],
      [CHR 0xE2, CHR 0x80, CHR 0x88], [CHR 0xE2, CHR 0x80, CHR 0x89],
      [CHR 0xE2, CHR 0x80, CHR 0x8A],
      [CHR 0xE2, CHR 0x80, CHR 0xA8], [CHR 0xE2, CHR 0x80, CHR 0xA9],
      [CHR 0xE2, CHR 0x80, CHR 0xAF],
      [CHR 0xE2, CHR 0x81, CHR 0x9F],
      [CHR 0xE3, CHR 0x80, CHR 0x80]]"

definition HasSuffix :: "string \<Rightarrow> string \<Rightarrow> bool" where
  "HasSuffix s suffix = HasPrefix (rev s) (rev suffix)"

definition leadingSpace :: "string \<Rightarrow> nat" where
  "leadingSpace s = (case filter (HasPrefix s) white_space of [] \<Rightarrow> 0 | w # _ \<Rightarrow> length w)"

definition trailingSpace :: "string \<Rightarrow> nat" where
  "trailingSpace s = (case filter (HasSuffix s) white_space of [] \<Rightarrow> 0 | w # _ \<Rightarrow> length w)"

lemma leadingSpace_Nil: "leadingSpace [] = 0"
  by (simp add: leadingSpace_def white_space_def)

lemma trailingSpace_Nil: "trailingSpace [] = 0"
  by (simp add: trailingSpace_def white_space_def HasSuffix_def)

function TrimLeftSpace :: "string \<Rightarrow> string" where
  "TrimLeftSpace s = (if leadingSpace s = 0 then s else TrimLeftSpace (drop (leadingSpace s) s))"
  by pat_completeness auto
termination
proof (relation "measure length")
  show "wf (measure length)" by simp
next
  fix s assume "leadingSpace s \<noteq> 0"
  then have "s \<noteq> []" using leadingSpace_Nil by auto
  with \<open>leadingSpace s \<noteq> 0\<close> show "(drop (leadingSpace s) s, s) \<in> measure length" by simp
qed

function TrimRightSpace :: "string \<Rightarrow> string" where
  "TrimRightSpace s =
     (if trailingSpace s = 0 then s else TrimRightSpace (take (length s - trailingSpace s) s))"
  by pat_completeness auto
termination
proof (relation "measure length")
  show "wf (measure length)" by simp
next
  fix s assume "trailingSpace s \<noteq> 0"
  then have "s \<noteq> []" using trailingSpace_Nil by auto
  with \<open>trailingSpace s \<noteq> 0\<close> show "(take (length s - trailingSpace s) s, s) \<in> measure length" by simp
qed

declare TrimLeftSpace.simps [simp del] TrimRightSpace.simps [simp del] Split.simps [simp del]

definition TrimSpace :: "string \<Rightarrow> string" where
  "TrimSpace s = TrimRightSpace (TrimLeftSpace s)"

lemma Split_not_Nil: "Split s sep \<noteq> []"
proof (induction s sep rule: Split.induct)
  case (1 sep)
  show ?case by (simp add: Split.simps(1))
next
  case (2 x xs sep)
  show ?case by (simp add: Split.simps(2)[of x xs] split: list.splits)
qed

lemma Join_Cons: "ps \<noteq> [] \<Longrightarrow> Join (p # ps) sep = p @ sep @ Join ps sep"
  by (cases ps) auto

lemma HasPrefix_append: "HasPrefix s p \<Longrightarrow> p @ drop (length p) s = s"
  by (induction s p rule: HasPrefix.induct) auto

lemma Join_Split: "Join (Split s sep) sep = s"
proof (induction s sep rule: Split.induct)
  case (1 sep)
  show ?case by (simp add: Split.simps(1))
next
  case (2 x xs sep)
  show ?case
  proof (cases "sep \<noteq> [] \<and> HasPrefix (x # xs) sep")
    case True
    then have "Join (Split (x # xs) sep) sep = sep @ Join (Split (drop (length sep) (x # xs)) sep) sep"
      by (simp add: Split.simps(2)[of x xs] Join_Cons Split_not_Nil)
    also have "\<dots> = sep @ drop (length sep) (x # xs)"
      using 2(1)[OF True] by simp
    also have "\<dots> = x # xs"
      using True HasPrefix_append by blast
    finally show ?thesis .
  next
    case False
    obtain p ps where sp: "Split xs sep = p # ps"
      using Split_not_Nil[of xs sep] by (cases "Split xs sep") auto
    have "Join (p # ps) sep = xs" using 2(2)[OF False] sp by simp
    moreover have "Join ((x # p) # ps) sep = x # Join (p # ps) sep"
      by (cases ps) auto
    ultimately show ?thesis
      using False sp by (auto simp: Split.simps(2)[of x xs])
  qed
qed

lemma leadingSpace_white:
  "w \<in> set white_space \<Longrightarrow> leadingSpace (w @ rest) = length w"
  unfolding white_space_def leadingSpace_def set_simps insert_iff empty_iff
  by (elim disjE FalseE; simp)

lemma white_space_not_Nil: "w \<in> set white_space \<Longrightarrow> w \<noteq> []"
  by (auto simp: white_space_def)

lemma TrimLeftSpace_white:
  "set ws \<subseteq> set white_space \<Longrightarrow> TrimLeftSpace (concat ws @ rest) = TrimLeftSpace rest"
proof (induction ws)
  case Nil
  show ?case by simp
next
  case (Cons w ws)
  then have w: "w \<in> set white_space" by simp
  have "TrimLeftSpace (w @ concat ws @ rest) = TrimLeftSpace (concat ws @ rest)"
    apply (subst TrimLeftSpace.simps)
    using leadingSpace_white[OF w, of "concat ws @ rest"] white_space_not_Nil[OF w]
    by simp
  with Cons show ?case by simp
qed

lemma TrimSpace_Nil: "TrimSpace [] = []"
  by (simp add: TrimSpace_def TrimLeftSpace.simps[of "[]"] TrimRightSpace.simps[of "[]"]
      leadingSpace_Nil trailingSpace_Nil)

lemma TrimSpace_white: "set ws \<subseteq> set white_space \<Longrightarrow> TrimSpace (concat ws) = []"
  using TrimLeftSpace_white[of ws "[]"] TrimSpace_Nil
  by (simp add: TrimSpace_def)


text \<open>
  \<open>TrimSpace\<close> removes exactly the white space around a text: the lemmas below lead
  to \<open>TrimSpace_surrounding\<close> and \<open>TrimSpace_decomp\<close>.
\<close>

lemma HasPrefix_iff: "HasPrefix s p \<longleftrightarrow> (\<exists>r. s = p @ r)"
  by (induction s p rule: HasPrefix.induct) auto

lemma HasSuffix_iff: "HasSuffix s p \<longleftrightarrow> (\<exists>r. s = r @ p)"
proof -
  have "HasSuffix s p \<longleftrightarrow> (\<exists>r. rev s = rev p @ r)"
    by (simp add: HasSuffix_def HasPrefix_iff)
  also have "\<dots> \<longleftrightarrow> (\<exists>r. s = r @ p)"
  proof
    assume "\<exists>r. rev s = rev p @ r"
    then obtain r where "rev s = rev p @ r" by blast
    then have "s = rev r @ p" by (metis rev_append rev_rev_ident)
    then show "\<exists>r. s = r @ p" by blast
  next
    assume "\<exists>r. s = r @ p"
    then show "\<exists>r. rev s = rev p @ r" by auto
  qed
  finally show ?thesis .
qed

lemma leadingSpace_cases:
  "(leadingSpace s = 0 \<and> (\<forall>w \<in> set white_space. \<not> HasPrefix s w)) \<or>
   (\<exists>w \<in> set white_space. HasPrefix s w \<and> leadingSpace s = length w \<and> w \<noteq> [])"
proof (cases "filter (HasPrefix s) white_space")
  case Nil
  then show ?thesis by (auto simp: leadingSpace_def filter_empty_conv)
next
  case (Cons a list)
  then have "a \<in> set (filter (HasPrefix s) white_space)" by simp
  then have "a \<in> set white_space" "HasPrefix s a" by auto
  moreover have "leadingSpace s = length a" using Cons by (simp add: leadingSpace_def)
  ultimately show ?thesis using white_space_not_Nil by blast
qed

lemma trailingSpace_cases:
  "(trailingSpace s = 0 \<and> (\<forall>w \<in> set white_space. \<not> HasSuffix s w)) \<or>
   (\<exists>w \<in> set white_space. HasSuffix s w \<and> trailingSpace s = length w \<and> w \<noteq> [])"
proof (cases "filter (HasSuffix s) white_space")
  case Nil
  then show ?thesis by (auto simp: trailingSpace_def filter_empty_conv)
next
  case (Cons a list)
  then have "a \<in> set (filter (HasSuffix s) white_space)" by simp
  then have "a \<in> set white_space" "HasSuffix s a" by auto
  moreover have "trailingSpace s = length a" using Cons by (simp add: trailingSpace_def)
  ultimately show ?thesis using white_space_not_Nil by blast
qed

lemma leadingSpace_0_iff: "leadingSpace s = 0 \<longleftrightarrow> (\<forall>w \<in> set white_space. \<not> HasPrefix s w)"
  using leadingSpace_cases[of s] by auto

lemma trailingSpace_0_iff: "trailingSpace s = 0 \<longleftrightarrow> (\<forall>w \<in> set white_space. \<not> HasSuffix s w)"
  using trailingSpace_cases[of s] by auto

lemma white_space_start:
  "\<forall>w \<in> set white_space. \<forall>w' \<in> set white_space. hd w \<notin> set (tl w')"
  by (simp add: white_space_def)

lemma trailingSpace_white:
  "w \<in> set white_space \<Longrightarrow> trailingSpace (x @ w) = length w"
  unfolding white_space_def trailingSpace_def set_simps insert_iff empty_iff
  by (elim disjE FalseE; simp add: HasSuffix_def)

lemma concat_white_hd:
  "set ws \<subseteq> set white_space \<Longrightarrow> concat ws \<noteq> [] \<Longrightarrow>
   \<exists>w \<in> set white_space. hd (concat ws) = hd w"
proof (induction ws)
  case Nil
  then show ?case by simp
next
  case (Cons w ws)
  then have "w \<in> set white_space" by simp
  moreover then have "w \<noteq> []" by (rule white_space_not_Nil)
  ultimately show ?case by auto
qed

text \<open>No white space character starts inside a text and ends in the white space after it.\<close>

lemma leadingSpace_append_white:
  assumes "leadingSpace core = 0" "core \<noteq> []" "set ws \<subseteq> set white_space"
  shows "leadingSpace (core @ concat ws) = 0"
proof -
  have "\<not> HasPrefix (core @ concat ws) w" if w: "w \<in> set white_space" for w
  proof
    assume "HasPrefix (core @ concat ws) w"
    then obtain r where r: "core @ concat ws = w @ r" by (auto simp: HasPrefix_iff)
    have "\<not> HasPrefix core w" using assms(1) w by (simp add: leadingSpace_0_iff)
    then have nopre: "\<nexists>r'. core = w @ r'" by (simp add: HasPrefix_iff)
    from r obtain u where u: "(core @ u = w \<and> concat ws = u @ r) \<or> (core = w @ u \<and> u @ concat ws = r)"
      by (auto simp: append_eq_append_conv2)
    with nopre have cu: "core @ u = w" "concat ws = u @ r" by auto
    with nopre have "u \<noteq> []" by auto
    with cu have ne: "concat ws \<noteq> []" and hdu: "hd (concat ws) = hd u" by auto
    obtain w' where w': "w' \<in> set white_space" "hd (concat ws) = hd w'"
      using concat_white_hd[OF assms(3) ne] by blast
    from cu(1) assms(2) \<open>u \<noteq> []\<close> have "hd u \<in> set (tl w)"
      by (cases core; cases u) auto
    with hdu w' w white_space_start show False by metis
  qed
  then show ?thesis by (simp add: leadingSpace_0_iff)
qed

lemma TrimLeftSpace_fix: "leadingSpace s = 0 \<Longrightarrow> TrimLeftSpace s = s"
  by (simp add: TrimLeftSpace.simps[of s])

lemma TrimRightSpace_fix: "trailingSpace s = 0 \<Longrightarrow> TrimRightSpace s = s"
  by (simp add: TrimRightSpace.simps[of s])

lemma TrimRightSpace_white:
  "set ws \<subseteq> set white_space \<Longrightarrow> TrimRightSpace (x @ concat ws) = TrimRightSpace x"
proof (induction ws rule: rev_induct)
  case Nil
  show ?case by simp
next
  case (snoc w ws)
  then have w: "w \<in> set white_space" by simp
  have "TrimRightSpace ((x @ concat ws) @ w) = TrimRightSpace (x @ concat ws)"
    apply (subst TrimRightSpace.simps)
    using trailingSpace_white[OF w, of "x @ concat ws"] white_space_not_Nil[OF w]
    by simp
  with snoc show ?case by simp
qed

lemma TrimSpace_surrounding:
  assumes "set ws1 \<subseteq> set white_space" "set ws2 \<subseteq> set white_space"
    and "leadingSpace core = 0" "trailingSpace core = 0"
  shows "TrimSpace (concat ws1 @ core @ concat ws2) = core"
proof (cases "core = []")
  case True
  then show ?thesis
    using TrimSpace_white[of "ws1 @ ws2"] assms(1,2) by simp
next
  case False
  have "TrimLeftSpace (concat ws1 @ core @ concat ws2) = TrimLeftSpace (core @ concat ws2)"
    using TrimLeftSpace_white[OF assms(1)] by simp
  also have "\<dots> = core @ concat ws2"
    using leadingSpace_append_white[OF assms(3) False assms(2)] by (rule TrimLeftSpace_fix)
  finally have "TrimSpace (concat ws1 @ core @ concat ws2) = TrimRightSpace (core @ concat ws2)"
    by (simp add: TrimSpace_def)
  also have "\<dots> = TrimRightSpace core"
    using TrimRightSpace_white[OF assms(2)] by simp
  also have "\<dots> = core"
    using assms(4) by (rule TrimRightSpace_fix)
  finally show ?thesis .
qed

lemma TrimLeftSpace_decomp:
  "\<exists>ws. set ws \<subseteq> set white_space \<and> s = concat ws @ TrimLeftSpace s \<and>
     leadingSpace (TrimLeftSpace s) = 0"
proof (induction s rule: TrimLeftSpace.induct)
  case (1 s)
  show ?case
  proof (cases "leadingSpace s = 0")
    case True
    then have "set [] \<subseteq> set white_space \<and> s = concat [] @ TrimLeftSpace s \<and>
        leadingSpace (TrimLeftSpace s) = 0"
      by (simp add: TrimLeftSpace_fix)
    then show ?thesis by blast
  next
    case False
    then obtain w where w: "w \<in> set white_space" "HasPrefix s w" "leadingSpace s = length w"
      using leadingSpace_cases[of s] by auto
    then have s: "s = w @ drop (leadingSpace s) s"
      by (auto simp: HasPrefix_iff)
    from 1[OF False] obtain ws where ws: "set ws \<subseteq> set white_space"
      "drop (leadingSpace s) s = concat ws @ TrimLeftSpace (drop (leadingSpace s) s)"
      "leadingSpace (TrimLeftSpace (drop (leadingSpace s) s)) = 0" by blast
    have t: "TrimLeftSpace s = TrimLeftSpace (drop (leadingSpace s) s)"
      using False by (subst TrimLeftSpace.simps) simp
    have "set (w # ws) \<subseteq> set white_space \<and> s = concat (w # ws) @ TrimLeftSpace s \<and>
        leadingSpace (TrimLeftSpace s) = 0"
      using w(1) ws s t by (metis append.assoc concat.simps(2) insert_subset list.simps(15))
    then show ?thesis by blast
  qed
qed

lemma TrimRightSpace_decomp:
  "\<exists>ws. set ws \<subseteq> set white_space \<and> s = TrimRightSpace s @ concat ws \<and>
     trailingSpace (TrimRightSpace s) = 0"
proof (induction s rule: TrimRightSpace.induct)
  case (1 s)
  show ?case
  proof (cases "trailingSpace s = 0")
    case True
    then have "set [] \<subseteq> set white_space \<and> s = TrimRightSpace s @ concat [] \<and>
        trailingSpace (TrimRightSpace s) = 0"
      by (simp add: TrimRightSpace_fix)
    then show ?thesis by blast
  next
    case False
    then obtain w where w: "w \<in> set white_space" "HasSuffix s w" "trailingSpace s = length w"
      using trailingSpace_cases[of s] by auto
    then have s: "s = take (length s - trailingSpace s) s @ w"
      by (auto simp: HasSuffix_iff)
    from 1[OF False] obtain ws where ws: "set ws \<subseteq> set white_space"
      "take (length s - trailingSpace s) s =
         TrimRightSpace (take (length s - trailingSpace s) s) @ concat ws"
      "trailingSpace (TrimRightSpace (take (length s - trailingSpace s) s)) = 0" by blast
    have t: "TrimRightSpace s = TrimRightSpace (take (length s - trailingSpace s) s)"
      using False by (subst TrimRightSpace.simps) simp
    have "s = TrimRightSpace s @ concat (ws @ [w])"
      using s ws(2) t by (metis append.assoc append_Nil2 concat.simps concat_append)
    then have "set (ws @ [w]) \<subseteq> set white_space \<and> s = TrimRightSpace s @ concat (ws @ [w]) \<and>
        trailingSpace (TrimRightSpace s) = 0"
      using w(1) ws(1,3) t by simp
    then show ?thesis by blast
  qed
qed

lemma TrimSpace_decomp:
  "\<exists>ws1 ws2. set ws1 \<subseteq> set white_space \<and> set ws2 \<subseteq> set white_space \<and>
     s = concat ws1 @ TrimSpace s @ concat ws2 \<and>
     leadingSpace (TrimSpace s) = 0 \<and> trailingSpace (TrimSpace s) = 0"
proof -
  obtain ws1 where l: "set ws1 \<subseteq> set white_space" "s = concat ws1 @ TrimLeftSpace s"
    "leadingSpace (TrimLeftSpace s) = 0"
    using TrimLeftSpace_decomp[of s] by blast
  obtain ws2 where r: "set ws2 \<subseteq> set white_space"
    "TrimLeftSpace s = TrimSpace s @ concat ws2" "trailingSpace (TrimSpace s) = 0"
    using TrimRightSpace_decomp[of "TrimLeftSpace s"] by (auto simp: TrimSpace_def)
  have "\<not> HasPrefix (TrimSpace s) w" if "w \<in> set white_space" for w
  proof
    assume "HasPrefix (TrimSpace s) w"
    then have "HasPrefix (TrimLeftSpace s) w"
      using r(2) by (metis HasPrefix_iff append.assoc)
    with l(3) that show False by (simp add: leadingSpace_0_iff)
  qed
  then have "leadingSpace (TrimSpace s) = 0" by (simp add: leadingSpace_0_iff)
  moreover have "s = concat ws1 @ TrimSpace s @ concat ws2"
    using l(2) r(2) by simp
  ultimately show ?thesis using l(1) r(1,3) by blast
qed


section \<open>The input list parser\<close>

text \<open>
  \<open>parseImageInput\<close> (slack.go, lines 564 to 577). An error is the left summand and
  carries the message of \<open>fmt.Errorf\<close>; the \<open>nil\<close> slice is the empty list.
  \<open>emptyItem\<close> is the \<open>for\<close> loop over the parts, true when it returns the error.
\<close>

fun emptyItem :: "string list \<Rightarrow> bool" where
  "emptyItem [] = False"
| "emptyItem (part # parts) = (if length part = 0 then True else emptyItem parts)"

definition parseImageInput :: "string \<Rightarrow> string + string list" where
  "parseImageInput input =
     (let input = TrimSpace input in
      if length input = 0 then Inr []
      else
        let input = stripLinks input;
            parts = Split input '','' in
        if emptyItem parts then Inl ''image inputs must not contain empty items''
        else Inr parts)"

lemma emptyItem_iff: "emptyItem parts \<longleftrightarrow> [] \<in> set parts"
  by (induction parts) auto

text \<open>
  Claim C7. \<open>parseImageInput\<close> trims the input first: \<open>TrimSpace\<close> removes the white
  space characters around a text and nothing else, so every input is some white
  space, then the trimmed text, which neither starts nor ends with a white space
  character, then some white space; and the white space around such a text does not
  change the result. When nothing is left (in particular when the input is empty or
  is made of white space only) the result is the empty list and no error. Otherwise
  the trimmed text is link-stripped and split on \<open>,\<close>; the result is the error when
  one of the items is empty, and the list of items otherwise. Nothing else is
  changed: joining the returned items with \<open>,\<close> gives back the link-stripped,
  trimmed text, so white space inside the text stays in the items.
\<close>

theorem parseImageInput_rules:
  "(TrimSpace input = [] \<longrightarrow> parseImageInput input = Inr []) \<and>
   ((\<exists>ws. set ws \<subseteq> set white_space \<and> input = concat ws) \<longrightarrow>
      parseImageInput input = Inr []) \<and>
   (TrimSpace input \<noteq> [] \<longrightarrow>
      parseImageInput input =
        (if [] \<in> set (Split (stripLinks (TrimSpace input)) '','')
         then Inl ''image inputs must not contain empty items''
         else Inr (Split (stripLinks (TrimSpace input)) '',''))) \<and>
   (parseImageInput input = Inr parts \<and> parts \<noteq> [] \<longrightarrow>
      [] \<notin> set parts \<and> Join parts '','' = stripLinks (TrimSpace input)) \<and>
   (set leading \<subseteq> set white_space \<and> set trailing \<subseteq> set white_space \<and>
    leadingSpace core = 0 \<and> trailingSpace core = 0 \<longrightarrow>
      TrimSpace (concat leading @ core @ concat trailing) = core \<and>
      parseImageInput (concat leading @ core @ concat trailing) =
        (if core = [] then Inr []
         else if [] \<in> set (Split (stripLinks core) '','')
         then Inl ''image inputs must not contain empty items''
         else Inr (Split (stripLinks core) '',''))) \<and>
   (\<exists>before after. set before \<subseteq> set white_space \<and> set after \<subseteq> set white_space \<and>
      input = concat before @ TrimSpace input @ concat after \<and>
      leadingSpace (TrimSpace input) = 0 \<and> trailingSpace (TrimSpace input) = 0)"
proof -
  have empty: "parseImageInput input = Inr []" if "TrimSpace input = []"
    using that by (simp add: parseImageInput_def)
  have white: "parseImageInput input = Inr []"
    if "\<exists>ws. set ws \<subseteq> set white_space \<and> input = concat ws"
  proof -
    from that have "TrimSpace input = []"
      using TrimSpace_white by blast
    then show ?thesis by (rule empty)
  qed
  have items: "parseImageInput s =
        (if [] \<in> set (Split (stripLinks (TrimSpace s)) '','')
         then Inl ''image inputs must not contain empty items''
         else Inr (Split (stripLinks (TrimSpace s)) '',''))"
    if "TrimSpace s \<noteq> []" for s
    using that by (simp add: parseImageInput_def Let_def emptyItem_iff)
  have joined: "[] \<notin> set parts \<and> Join parts '','' = stripLinks (TrimSpace input)"
    if a: "parseImageInput input = Inr parts \<and> parts \<noteq> []"
  proof -
    from a have ne: "TrimSpace input \<noteq> []"
      by (auto simp: parseImageInput_def)
    with a have "[] \<notin> set parts \<and> parts = Split (stripLinks (TrimSpace input)) '',''"
      by (auto simp: parseImageInput_def Let_def emptyItem_iff split: if_splits)
    then show ?thesis
      using Join_Split[of "stripLinks (TrimSpace input)" "'',''"] by auto
  qed
  have around: "TrimSpace (concat leading @ core @ concat trailing) = core \<and>
      parseImageInput (concat leading @ core @ concat trailing) =
        (if core = [] then Inr []
         else if [] \<in> set (Split (stripLinks core) '','')
         then Inl ''image inputs must not contain empty items''
         else Inr (Split (stripLinks core) '',''))"
    if h: "set leading \<subseteq> set white_space \<and> set trailing \<subseteq> set white_space \<and>
      leadingSpace core = 0 \<and> trailingSpace core = 0"
  proof -
    from h have t: "TrimSpace (concat leading @ core @ concat trailing) = core"
      using TrimSpace_surrounding by blast
    show ?thesis
    proof (cases "core = []")
      case True
      with t show ?thesis by (simp add: parseImageInput_def)
    next
      case False
      with t items[of "concat leading @ core @ concat trailing"] show ?thesis by simp
    qed
  qed
  note decomp = TrimSpace_decomp[of input]
  from empty white items[of input] joined around decomp show ?thesis by blast
qed

theorem parseImageInput_rules_witness:
  "parseImageInput '''' = Inr [] \<and>
   parseImageInput ''  '' = Inr [] \<and>
   parseImageInput ''a,b'' = Inr [''a'', ''b''] \<and>
   parseImageInput ''a,,b'' = Inl ''image inputs must not contain empty items'' \<and>
   Join [''a'', ''b''] '','' = stripLinks (TrimSpace ''a,b'') \<and>
   TrimSpace ''  a,b  '' = ''a,b'' \<and>
   parseImageInput ''  a,b  '' = Inr [''a'', ''b''] \<and>
   parseImageInput ([CHR 0x09] @ ''a , b'' @ [CHR 0xC2, CHR 0xA0, CHR 0x0A]) =
     Inr [''a '', '' b'']"
proof -
  have t1: "TrimSpace ''a,b'' = ''a,b''" by code_simp
  have t2: "TrimSpace ''a,,b'' = ''a,,b''" by code_simp
  have s1: "Split (stripLinks ''a,b'') '','' = [''a'', ''b'']" by code_simp
  have s2: "Split (stripLinks ''a,,b'') '','' = [''a'', [], ''b'']" by code_simp
  have s3: "Split (stripLinks ''a , b'') '','' = [''a '', '' b'']" by code_simp
  have w: "set ['' '', '' ''] \<subseteq> set white_space \<and> ''  '' = concat ['' '', '' '']"
    by (simp add: white_space_def)
  have e1: "parseImageInput '''' = Inr []"
    using parseImageInput_rules[where input = "''''"] TrimSpace_Nil by simp
  have e2: "parseImageInput ''  '' = Inr []"
    using parseImageInput_rules[where input = "''  ''"] w by blast
  have e3: "parseImageInput ''a,b'' = Inr [''a'', ''b'']"
    using parseImageInput_rules[where input = "''a,b''"] by (simp add: t1 s1)
  have e4: "parseImageInput ''a,,b'' = Inl ''image inputs must not contain empty items''"
    using parseImageInput_rules[where input = "''a,,b''"] by (simp add: t2 s2)
  have e5: "Join [''a'', ''b''] '','' = stripLinks (TrimSpace ''a,b'')"
    using parseImageInput_rules[where input = "''a,b''" and parts = "[''a'', ''b'']"] e3
    by simp
  have c1: "set ['' '', '' ''] \<subseteq> set white_space \<and> set ['' '', '' ''] \<subseteq> set white_space \<and>
      leadingSpace ''a,b'' = 0 \<and> trailingSpace ''a,b'' = 0"
    by (simp add: white_space_def leadingSpace_def trailingSpace_def HasSuffix_def)
  have a1: "TrimSpace (concat ['' '', '' ''] @ ''a,b'' @ concat ['' '', '' '']) = ''a,b'' \<and>
      parseImageInput (concat ['' '', '' ''] @ ''a,b'' @ concat ['' '', '' '']) =
        (if ''a,b'' = [] then Inr []
         else if [] \<in> set (Split (stripLinks ''a,b'') '','')
         then Inl ''image inputs must not contain empty items''
         else Inr (Split (stripLinks ''a,b'') '',''))"
    using parseImageInput_rules[where leading = "['' '', '' '']" and trailing = "['' '', '' '']"
        and core = "''a,b''", THEN conjunct2, THEN conjunct2, THEN conjunct2,
        THEN conjunct2, THEN conjunct1] c1
    by (rule mp)
  have e6: "TrimSpace ''  a,b  '' = ''a,b''" using a1 by simp
  have e7: "parseImageInput ''  a,b  '' = Inr [''a'', ''b'']"
    using a1 by (simp add: s1)
  have c2: "set [[CHR 0x09]] \<subseteq> set white_space \<and>
      set [[CHR 0xC2, CHR 0xA0], [CHR 0x0A]] \<subseteq> set white_space \<and>
      leadingSpace ''a , b'' = 0 \<and> trailingSpace ''a , b'' = 0"
    by (simp add: white_space_def leadingSpace_def trailingSpace_def HasSuffix_def)
  have a2: "TrimSpace (concat [[CHR 0x09]] @ ''a , b'' @
        concat [[CHR 0xC2, CHR 0xA0], [CHR 0x0A]]) = ''a , b'' \<and>
      parseImageInput (concat [[CHR 0x09]] @ ''a , b'' @
        concat [[CHR 0xC2, CHR 0xA0], [CHR 0x0A]]) =
        (if ''a , b'' = [] then Inr []
         else if [] \<in> set (Split (stripLinks ''a , b'') '','')
         then Inl ''image inputs must not contain empty items''
         else Inr (Split (stripLinks ''a , b'') '',''))"
    using parseImageInput_rules[where leading = "[[CHR 0x09]]"
        and trailing = "[[CHR 0xC2, CHR 0xA0], [CHR 0x0A]]"
        and core = "''a , b''", THEN conjunct2, THEN conjunct2, THEN conjunct2,
        THEN conjunct2, THEN conjunct1] c2
    by (rule mp)
  have e8: "parseImageInput ([CHR 0x09] @ ''a , b'' @ [CHR 0xC2, CHR 0xA0, CHR 0x0A]) =
      Inr [''a '', '' b'']"
    using a2 by (simp add: s3)
  from e1 e2 e3 e4 e5 e6 e7 e8 show ?thesis by simp
qed


section \<open>The option parser\<close>

text \<open>
  A Go \<open>map[string]string\<close> is an association list with distinct keys. The order of
  the list stands for the order in which \<open>range\<close> visits the keys, which Go leaves
  unspecified: the theorems below hold for every order. \<open>delete(m, k)\<close> is
  \<open>AList.delete k m\<close>, the assignment \<open>m[k] = v\<close> is \<open>AList.update k v m\<close>, and
  the index expression \<open>m[k]\<close> is \<open>lookup m k\<close>, the empty string for a missing key.
\<close>

type_synonym params = "(string \<times> string) list"

definition lookup :: "params \<Rightarrow> string \<Rightarrow> string" where
  "lookup m k = (case map_of m k of None \<Rightarrow> [] | Some v \<Rightarrow> v)"

text \<open>
  Modelled from the spec: \<open>contains\<close> is declared outside \<open>slack.go\<close>; the
  specification asks of the allow-lists only a membership test.
\<close>

definition contains :: "string list \<Rightarrow> string \<Rightarrow> bool" where
  "contains arr s = (s \<in> set arr)"

text \<open>
  Modelled from the spec: \<open>paramsFromAnnotation\<close> is declared outside \<open>slack.go\<close>.
  The specification requires of it only to split on commas, to split each item on
  the first \<open>=\<close> (a bare token maps to the empty value), and to keep the last value
  of a repeated key. It is used for the examples only: \<open>parseOptions\<close> below takes
  the helper as a parameter and the theorems hold for every helper.
\<close>

definition paramsFromAnnotation_spec :: "string \<Rightarrow> string + params" where
  "paramsFromAnnotation_spec annotation =
     Inr (fold
       (\<lambda>item m.
          case Index item ''='' of
            None \<Rightarrow> AList.update item [] m
          | Some i \<Rightarrow> AList.update (take i item) (drop (i + 1) item) m)
       (Split annotation '','') [])"

text \<open>
  The package-level allow-lists and the helper, all declared outside \<open>slack.go\<close>,
  are parameters of the model.
\<close>

record globals =
  supportedPlatforms :: "string list"
  supportedArchitectures :: "string list"
  supportedParameters :: "string list"
  supportedTests :: "string list"
  paramsFromAnnotation :: "string \<Rightarrow> string + params"

text \<open>
  \<open>parseOptions\<close> (slack.go, lines 606 to 641). \<open>classify\<close> is the \<open>switch\<close> in the
  body of the loop, on the variables \<open>platform\<close>, \<open>architecture\<close> and \<open>params\<close>;
  \<open>range_params\<close> is the loop over the keys. The loop deletes only the key it is
  visiting, so every key of the map is visited once.
\<close>

definition classify ::
  "globals \<Rightarrow> string \<times> string \<times> params \<Rightarrow> string \<Rightarrow> string + string \<times> string \<times> params"
where
  "classify g st opt =
     (case st of (platform, architecture, params) \<Rightarrow>
        if contains (supportedPlatforms g) opt then
          if length platform > 0 then Inl ''you may only specify one platform in options''
          else Inr (opt, architecture, AList.delete opt params)
        else if contains (supportedArchitectures g) opt then
          if length architecture > 0
          then Inl ''you may only specify one architecture in options''
          else Inr (platform, opt, AList.delete opt params)
        else if opt = [] then Inr (platform, architecture, AList.delete opt params)
        else if contains (supportedParameters g) opt then Inr (platform, architecture, params)
        else Inl (''unrecognized option: '' @ opt))"

fun range_params ::
  "globals \<Rightarrow> string \<times> string \<times> params \<Rightarrow> string list \<Rightarrow> string + string \<times> string \<times> params"
where
  "range_params g st [] = Inr st"
| "range_params g st (opt # opts) =
     (case classify g st opt of
        Inl err \<Rightarrow> Inl err
      | Inr st' \<Rightarrow> range_params g st' opts)"

definition parseOptions :: "globals \<Rightarrow> string \<Rightarrow> string + string \<times> string \<times> params" where
  "parseOptions g options =
     (case paramsFromAnnotation g options of
        Inl err \<Rightarrow> Inl (''options could not be parsed: '' @ err)
      | Inr params \<Rightarrow>
          (case range_params g ([], [], params) (map fst params) of
             Inl err \<Rightarrow> Inl err
           | Inr (platform, architecture, params) \<Rightarrow>
               Inr (if length platform = 0 then ''gcp'' else platform,
                    if length architecture = 0 then ''amd64'' else architecture,
                    params)))"

text \<open>
  How the \<open>switch\<close> classifies a key: the first matching case wins, so a key of both
  allow-lists is a platform. A key is unrecognized when it reaches the \<open>default\<close> case.
\<close>

definition is_platform :: "globals \<Rightarrow> string \<Rightarrow> bool" where
  "is_platform g opt = contains (supportedPlatforms g) opt"

definition is_architecture :: "globals \<Rightarrow> string \<Rightarrow> bool" where
  "is_architecture g opt =
     (\<not> contains (supportedPlatforms g) opt \<and> contains (supportedArchitectures g) opt)"

definition unrecognized :: "globals \<Rightarrow> string \<Rightarrow> bool" where
  "unrecognized g opt =
     (\<not> contains (supportedPlatforms g) opt \<and> \<not> contains (supportedArchitectures g) opt \<and>
      opt \<noteq> [] \<and> \<not> contains (supportedParameters g) opt)"

text \<open>An example configuration, for the examples of the specification.\<close>

definition example_globals :: globals where
  "example_globals =
     \<lparr>supportedPlatforms = [''aws'', ''gcp'', ''azure''],
      supportedArchitectures = [''amd64'', ''arm64''],
      supportedParameters = [''test'', ''ovn''],
      supportedTests = [''e2e'', ''e2e-serial''],
      paramsFromAnnotation = paramsFromAnnotation_spec\<rparr>"

lemma range_params_append:
  "range_params g st (pre @ opts) =
     (case range_params g st pre of Inl err \<Rightarrow> Inl err | Inr st' \<Rightarrow> range_params g st' opts)"
  by (induction pre arbitrary: st) (auto split: sum.splits)

text \<open>The loop fails exactly when it reaches a key whose classification fails.\<close>

lemma range_params_Inl_iff:
  "range_params g st opts = Inl err \<longleftrightarrow>
     (\<exists>pre opt rest st'. opts = pre @ opt # rest \<and> range_params g st pre = Inr st' \<and>
        classify g st' opt = Inl err)"
proof (induction opts arbitrary: st)
  case Nil
  show ?case by simp
next
  case (Cons o1 opts)
  show ?case
  proof (cases "classify g st o1")
    case (Inl e)
    show ?thesis
    proof
      assume "range_params g st (o1 # opts) = Inl err"
      with Inl have "e = err" by simp
      with Inl have "o1 # opts = [] @ o1 # opts \<and> range_params g st [] = Inr st \<and>
          classify g st o1 = Inl err" by simp
      then show "\<exists>pre opt rest st'. o1 # opts = pre @ opt # rest \<and>
          range_params g st pre = Inr st' \<and> classify g st' opt = Inl err" by blast
    next
      assume "\<exists>pre opt rest st'. o1 # opts = pre @ opt # rest \<and>
          range_params g st pre = Inr st' \<and> classify g st' opt = Inl err"
      then obtain pre opt rest st' where d: "o1 # opts = pre @ opt # rest"
        "range_params g st pre = Inr st'" "classify g st' opt = Inl err" by blast
      show "range_params g st (o1 # opts) = Inl err"
      proof (cases pre)
        case Nil
        with d show ?thesis by simp
      next
        case (Cons p pre')
        with d Inl show ?thesis by simp
      qed
    qed
  next
    case (Inr st1)
    have "range_params g st (o1 # opts) = Inl err \<longleftrightarrow> range_params g st1 opts = Inl err"
      using Inr by simp
    also have "\<dots> \<longleftrightarrow> (\<exists>pre opt rest st'. opts = pre @ opt # rest \<and>
        range_params g st1 pre = Inr st' \<and> classify g st' opt = Inl err)"
      by (rule Cons.IH)
    also have "\<dots> \<longleftrightarrow> (\<exists>pre opt rest st'. o1 # opts = pre @ opt # rest \<and>
        range_params g st pre = Inr st' \<and> classify g st' opt = Inl err)"
    proof
      assume "\<exists>pre opt rest st'. opts = pre @ opt # rest \<and>
        range_params g st1 pre = Inr st' \<and> classify g st' opt = Inl err"
      then obtain pre opt rest st' where d: "opts = pre @ opt # rest"
        "range_params g st1 pre = Inr st'" "classify g st' opt = Inl err" by blast
      then have "o1 # opts = (o1 # pre) @ opt # rest \<and> range_params g st (o1 # pre) = Inr st' \<and>
          classify g st' opt = Inl err"
        using Inr by simp
      then show "\<exists>pre opt rest st'. o1 # opts = pre @ opt # rest \<and>
        range_params g st pre = Inr st' \<and> classify g st' opt = Inl err" by blast
    next
      assume "\<exists>pre opt rest st'. o1 # opts = pre @ opt # rest \<and>
        range_params g st pre = Inr st' \<and> classify g st' opt = Inl err"
      then obtain pre opt rest st' where d: "o1 # opts = pre @ opt # rest"
        "range_params g st pre = Inr st'" "classify g st' opt = Inl err" by blast
      show "\<exists>pre opt rest st'. opts = pre @ opt # rest \<and>
        range_params g st1 pre = Inr st' \<and> classify g st' opt = Inl err"
      proof (cases pre)
        case Nil
        with d Inr show ?thesis by simp
      next
        case (Cons p pre')
        with d Inr have "opts = pre' @ opt # rest \<and> range_params g st1 pre' = Inr st'"
          by simp
        with d(3) show ?thesis by blast
      qed
    qed
    finally show ?thesis .
  qed
qed

lemma classify_platform_error:
  "classify g (p, a, ps) opt = Inl ''you may only specify one platform in options'' \<longleftrightarrow>
     contains (supportedPlatforms g) opt \<and> p \<noteq> []"
  by (simp add: classify_def)

lemma classify_architecture_error:
  "classify g (p, a, ps) opt = Inl ''you may only specify one architecture in options'' \<longleftrightarrow>
     \<not> contains (supportedPlatforms g) opt \<and> contains (supportedArchitectures g) opt \<and> a \<noteq> []"
  by (simp add: classify_def)

lemma classify_unrecognized:
  "\<not> contains (supportedPlatforms g) opt \<Longrightarrow> \<not> contains (supportedArchitectures g) opt \<Longrightarrow>
   opt \<noteq> [] \<Longrightarrow> \<not> contains (supportedParameters g) opt \<Longrightarrow>
   classify g st opt = Inl (''unrecognized option: '' @ opt)"
  by (cases st) (simp add: classify_def)

lemma range_params_params:
  "range_params g (p, a, ps) opts = Inr (p', a', ps') \<Longrightarrow>
   ps' = filter (\<lambda>kv. \<not> (fst kv \<in> set opts \<and>
      (is_platform g (fst kv) \<or> is_architecture g (fst kv) \<or> fst kv = []))) ps"
proof (induction opts arbitrary: p a ps)
  case Nil
  then show ?case by simp
next
  case (Cons opt opts)
  from Cons.prems obtain p1 a1 ps1 where
    st: "classify g (p, a, ps) opt = Inr (p1, a1, ps1)"
    and run: "range_params g (p1, a1, ps1) opts = Inr (p', a', ps')"
    by (auto split: sum.splits)
  have ps1: "ps1 = filter (\<lambda>kv. \<not> (fst kv = opt \<and>
      (is_platform g opt \<or> is_architecture g opt \<or> opt = []))) ps"
    using st
    by (auto simp: classify_def is_platform_def is_architecture_def AList.delete_eq
        split: if_splits intro!: filter_cong)
  show ?case
    unfolding Cons.IH[OF run] ps1 filter_filter
    by (rule filter_cong) auto
qed

lemma range_params_keeps_platform:
  "range_params g (p, a, ps) opts = Inr (p', a', ps') \<Longrightarrow>
   \<forall>k \<in> set opts. \<not> is_platform g k \<Longrightarrow> p' = p"
proof (induction opts arbitrary: p a ps)
  case Nil
  then show ?case by simp
next
  case (Cons opt opts)
  from Cons.prems(1) obtain p1 a1 ps1 where
    st: "classify g (p, a, ps) opt = Inr (p1, a1, ps1)"
    and run: "range_params g (p1, a1, ps1) opts = Inr (p', a', ps')"
    by (auto split: sum.splits)
  have "p1 = p"
    using st Cons.prems(2) by (auto simp: classify_def is_platform_def split: if_splits)
  with Cons.IH[OF run] Cons.prems(2) show ?case by simp
qed

lemma range_params_keeps_architecture:
  "range_params g (p, a, ps) opts = Inr (p', a', ps') \<Longrightarrow>
   \<forall>k \<in> set opts. \<not> is_architecture g k \<Longrightarrow> a' = a"
proof (induction opts arbitrary: p a ps)
  case Nil
  then show ?case by simp
next
  case (Cons opt opts)
  from Cons.prems(1) obtain p1 a1 ps1 where
    st: "classify g (p, a, ps) opt = Inr (p1, a1, ps1)"
    and run: "range_params g (p1, a1, ps1) opts = Inr (p', a', ps')"
    by (auto split: sum.splits)
  have "a1 = a"
    using st Cons.prems(2) by (auto simp: classify_def is_architecture_def split: if_splits)
  with Cons.IH[OF run] Cons.prems(2) show ?case by simp
qed

text \<open>
  Once a platform is recorded no later key is a platform, or the loop would have
  failed; so the recorded platform is the only platform key.
\<close>

lemma range_params_platform_set:
  "range_params g (p, a, ps) opts = Inr (p', a', ps') \<Longrightarrow> p \<noteq> [] \<Longrightarrow>
   p' = p \<and> (\<forall>k \<in> set opts. \<not> is_platform g k)"
proof (induction opts arbitrary: a ps)
  case Nil
  then show ?case by simp
next
  case (Cons opt opts)
  from Cons.prems(1) obtain p1 a1 ps1 where
    st: "classify g (p, a, ps) opt = Inr (p1, a1, ps1)"
    and run: "range_params g (p1, a1, ps1) opts = Inr (p', a', ps')"
    by (auto split: sum.splits)
  have "p1 = p \<and> \<not> is_platform g opt"
    using st Cons.prems(2) by (auto simp: classify_def is_platform_def split: if_splits)
  with Cons.IH[of a1 ps1] run Cons.prems(2) show ?case by simp
qed

lemma range_params_architecture_set:
  "range_params g (p, a, ps) opts = Inr (p', a', ps') \<Longrightarrow> a \<noteq> [] \<Longrightarrow>
   a' = a \<and> (\<forall>k \<in> set opts. \<not> is_architecture g k)"
proof (induction opts arbitrary: p ps)
  case Nil
  then show ?case by simp
next
  case (Cons opt opts)
  from Cons.prems(1) obtain p1 a1 ps1 where
    st: "classify g (p, a, ps) opt = Inr (p1, a1, ps1)"
    and run: "range_params g (p1, a1, ps1) opts = Inr (p', a', ps')"
    by (auto split: sum.splits)
  have "a1 = a \<and> \<not> is_architecture g opt"
    using st Cons.prems(2) by (auto simp: classify_def is_architecture_def split: if_splits)
  with Cons.IH[of p1 ps1] run Cons.prems(2) show ?case by simp
qed

lemma range_params_platform:
  "range_params g (p, a, ps) opts = Inr (p', a', ps') \<Longrightarrow> [] \<notin> set (supportedPlatforms g) \<Longrightarrow>
   \<forall>k \<in> set opts. is_platform g k \<longrightarrow> p' = k"
proof (induction opts arbitrary: p a ps)
  case Nil
  then show ?case by simp
next
  case (Cons opt opts)
  from Cons.prems(1) obtain p1 a1 ps1 where
    st: "classify g (p, a, ps) opt = Inr (p1, a1, ps1)"
    and run: "range_params g (p1, a1, ps1) opts = Inr (p', a', ps')"
    by (auto split: sum.splits)
  have rest: "\<forall>k \<in> set opts. is_platform g k \<longrightarrow> p' = k"
    using Cons.IH[OF run Cons.prems(2)] .
  have "p' = opt" if "is_platform g opt"
  proof -
    from that st have "p1 = opt"
      by (auto simp: classify_def is_platform_def split: if_splits)
    moreover from that Cons.prems(2) have "opt \<noteq> []"
      by (auto simp: is_platform_def contains_def)
    ultimately show ?thesis
      using range_params_platform_set[OF run] by simp
  qed
  with rest show ?case by simp
qed

lemma range_params_architecture:
  "range_params g (p, a, ps) opts = Inr (p', a', ps') \<Longrightarrow>
   [] \<notin> set (supportedArchitectures g) \<Longrightarrow>
   \<forall>k \<in> set opts. is_architecture g k \<longrightarrow> a' = k"
proof (induction opts arbitrary: p a ps)
  case Nil
  then show ?case by simp
next
  case (Cons opt opts)
  from Cons.prems(1) obtain p1 a1 ps1 where
    st: "classify g (p, a, ps) opt = Inr (p1, a1, ps1)"
    and run: "range_params g (p1, a1, ps1) opts = Inr (p', a', ps')"
    by (auto split: sum.splits)
  have rest: "\<forall>k \<in> set opts. is_architecture g k \<longrightarrow> a' = k"
    using Cons.IH[OF run Cons.prems(2)] .
  have "a' = opt" if "is_architecture g opt"
  proof -
    from that st have "a1 = opt"
      by (auto simp: classify_def is_architecture_def split: if_splits)
    moreover from that Cons.prems(2) have "opt \<noteq> []"
      by (auto simp: is_architecture_def contains_def)
    ultimately show ?thesis
      using range_params_architecture_set[OF run] by simp
  qed
  with rest show ?case by simp
qed

lemma parseOptions_Inl_iff:
  assumes "paramsFromAnnotation g options = Inr kvs"
  shows "parseOptions g options = Inl err \<longleftrightarrow>
     range_params g ([], [], kvs) (map fst kvs) = Inl err"
  using assms by (auto simp: parseOptions_def split: sum.splits)

lemma parseOptions_Inr_iff:
  assumes "paramsFromAnnotation g options = Inr kvs"
  shows "parseOptions g options = Inr (platform, architecture, params) \<longleftrightarrow>
     (\<exists>p a. range_params g ([], [], kvs) (map fst kvs) = Inr (p, a, params) \<and>
        platform = (if p = [] then ''gcp'' else p) \<and>
        architecture = (if a = [] then ''amd64'' else a))"
  using assms by (auto simp: parseOptions_def split: sum.splits)

lemma reached_platform:
  assumes "range_params g ([], [], kvs) pre = Inr (p, a, ps)"
    and "[] \<notin> set (supportedPlatforms g)"
  shows "p \<noteq> [] \<longleftrightarrow> (\<exists>k \<in> set pre. is_platform g k)"
proof
  assume "p \<noteq> []"
  then show "\<exists>k \<in> set pre. is_platform g k"
    using range_params_keeps_platform[OF assms(1)] by blast
next
  assume "\<exists>k \<in> set pre. is_platform g k"
  then obtain k where k: "k \<in> set pre" "is_platform g k" by blast
  then have "p = k"
    using range_params_platform[OF assms] by blast
  moreover from k(2) assms(2) have "k \<noteq> []"
    by (auto simp: is_platform_def contains_def)
  ultimately show "p \<noteq> []" by simp
qed

lemma reached_architecture:
  assumes "range_params g ([], [], kvs) pre = Inr (p, a, ps)"
    and "[] \<notin> set (supportedArchitectures g)"
  shows "a \<noteq> [] \<longleftrightarrow> (\<exists>k \<in> set pre. is_architecture g k)"
proof
  assume "a \<noteq> []"
  then show "\<exists>k \<in> set pre. is_architecture g k"
    using range_params_keeps_architecture[OF assms(1)] by blast
next
  assume "\<exists>k \<in> set pre. is_architecture g k"
  then obtain k where k: "k \<in> set pre" "is_architecture g k" by blast
  then have "a = k"
    using range_params_architecture[OF assms] by blast
  moreover from k(2) assms(2) have "k \<noteq> []"
    by (auto simp: is_architecture_def contains_def)
  ultimately show "a \<noteq> []" by simp
qed

lemma one_platform_iff:
  assumes pfa: "paramsFromAnnotation g options = Inr kvs"
    and dist: "distinct (map fst kvs)"
    and noP: "[] \<notin> set (supportedPlatforms g)"
  shows "parseOptions g options = Inl ''you may only specify one platform in options'' \<longleftrightarrow>
     (\<exists>pre opt rest st. map fst kvs = pre @ opt # rest \<and>
        range_params g ([], [], kvs) pre = Inr st \<and> is_platform g opt \<and>
        (\<exists>k \<in> set pre. k \<noteq> opt \<and> is_platform g k))"
    (is "?L \<longleftrightarrow> ?R")
proof
  assume ?L
  then obtain pre opt rest st where d: "map fst kvs = pre @ opt # rest"
    "range_params g ([], [], kvs) pre = Inr st"
    "classify g st opt = Inl ''you may only specify one platform in options''"
    using parseOptions_Inl_iff[OF pfa] range_params_Inl_iff by blast
  obtain p a ps where st: "st = (p, a, ps)" by (cases st)
  from d(3) st have "is_platform g opt" "p \<noteq> []"
    by (simp_all add: classify_platform_error is_platform_def)
  then obtain k where k: "k \<in> set pre" "is_platform g k"
    using reached_platform[OF d(2)[unfolded st] noP] by blast
  from dist d(1) k(1) have "k \<noteq> opt" by auto
  with d(1,2) \<open>is_platform g opt\<close> k show ?R by blast
next
  assume ?R
  then obtain pre opt rest st k where d: "map fst kvs = pre @ opt # rest"
    "range_params g ([], [], kvs) pre = Inr st" "is_platform g opt"
    "k \<in> set pre" "is_platform g k" by blast
  obtain p a ps where st: "st = (p, a, ps)" by (cases st)
  have "p \<noteq> []"
    using reached_platform[OF d(2)[unfolded st] noP] d(4,5) by blast
  with d(3) st have "classify g st opt = Inl ''you may only specify one platform in options''"
    by (simp add: classify_platform_error is_platform_def)
  with d(1,2) show ?L
    using parseOptions_Inl_iff[OF pfa] range_params_Inl_iff by blast
qed

lemma one_architecture_iff:
  assumes pfa: "paramsFromAnnotation g options = Inr kvs"
    and dist: "distinct (map fst kvs)"
    and noA: "[] \<notin> set (supportedArchitectures g)"
  shows "parseOptions g options = Inl ''you may only specify one architecture in options'' \<longleftrightarrow>
     (\<exists>pre opt rest st. map fst kvs = pre @ opt # rest \<and>
        range_params g ([], [], kvs) pre = Inr st \<and> is_architecture g opt \<and>
        (\<exists>k \<in> set pre. k \<noteq> opt \<and> is_architecture g k))"
    (is "?L \<longleftrightarrow> ?R")
proof
  assume ?L
  then obtain pre opt rest st where d: "map fst kvs = pre @ opt # rest"
    "range_params g ([], [], kvs) pre = Inr st"
    "classify g st opt = Inl ''you may only specify one architecture in options''"
    using parseOptions_Inl_iff[OF pfa] range_params_Inl_iff by blast
  obtain p a ps where st: "st = (p, a, ps)" by (cases st)
  from d(3) st have "is_architecture g opt" "a \<noteq> []"
    by (simp_all add: classify_architecture_error is_architecture_def)
  then obtain k where k: "k \<in> set pre" "is_architecture g k"
    using reached_architecture[OF d(2)[unfolded st] noA] by blast
  from dist d(1) k(1) have "k \<noteq> opt" by auto
  with d(1,2) \<open>is_architecture g opt\<close> k show ?R by blast
next
  assume ?R
  then obtain pre opt rest st k where d: "map fst kvs = pre @ opt # rest"
    "range_params g ([], [], kvs) pre = Inr st" "is_architecture g opt"
    "k \<in> set pre" "is_architecture g k" by blast
  obtain p a ps where st: "st = (p, a, ps)" by (cases st)
  have "a \<noteq> []"
    using reached_architecture[OF d(2)[unfolded st] noA] d(4,5) by blast
  with d(3) st have "classify g st opt = Inl ''you may only specify one architecture in options''"
    by (simp add: classify_architecture_error is_architecture_def)
  with d(1,2) show ?L
    using parseOptions_Inl_iff[OF pfa] range_params_Inl_iff by blast
qed

lemma unrecognized_reached:
  assumes pfa: "paramsFromAnnotation g options = Inr kvs"
    and "map fst kvs = pre @ opt # rest"
    and "range_params g ([], [], kvs) pre = Inr st"
    and "unrecognized g opt"
  shows "parseOptions g options = Inl (''unrecognized option: '' @ opt)"
proof -
  have "classify g st opt = Inl (''unrecognized option: '' @ opt)"
    using assms(4) by (simp add: unrecognized_def classify_unrecognized)
  with assms(2,3) show ?thesis
    using parseOptions_Inl_iff[OF pfa] range_params_Inl_iff by blast
qed

lemma unrecognized_fails:
  assumes pfa: "paramsFromAnnotation g options = Inr kvs"
    and "k \<in> fst ` set kvs" "unrecognized g k"
  shows "isl (parseOptions g options)"
proof -
  from assms(2) have "k \<in> set (map fst kvs)" by simp
  then obtain pre rest where sp: "map fst kvs = pre @ k # rest"
    by (auto dest: split_list)
  show ?thesis
  proof (cases "range_params g ([], [], kvs) pre")
    case (Inl err)
    then have "range_params g ([], [], kvs) (map fst kvs) = Inl err"
      by (simp add: sp range_params_append)
    then have "parseOptions g options = Inl err"
      using parseOptions_Inl_iff[OF pfa] by blast
    then show ?thesis by simp
  next
    case (Inr st)
    then show ?thesis
      using unrecognized_reached[OF pfa sp Inr assms(3)] by simp
  qed
qed

lemma parseOptions_no_overwrite:
  assumes pfa: "paramsFromAnnotation g options = Inr kvs"
    and noP: "[] \<notin> set (supportedPlatforms g)"
    and noA: "[] \<notin> set (supportedArchitectures g)"
    and ok: "parseOptions g options = Inr (platform, architecture, params)"
    and k: "k \<in> fst ` set kvs"
  shows "(is_platform g k \<longrightarrow> platform = k) \<and> (is_architecture g k \<longrightarrow> architecture = k)"
proof -
  from ok obtain p a where run: "range_params g ([], [], kvs) (map fst kvs) = Inr (p, a, params)"
    and pl: "platform = (if p = [] then ''gcp'' else p)"
    and ar: "architecture = (if a = [] then ''amd64'' else a)"
    using parseOptions_Inr_iff[OF pfa] by blast
  from k have k': "k \<in> set (map fst kvs)" by simp
  have "platform = k" if "is_platform g k"
  proof -
    from that have "p = k" using range_params_platform[OF run noP] k' by blast
    moreover from that noP have "k \<noteq> []" by (auto simp: is_platform_def contains_def)
    ultimately show ?thesis using pl by simp
  qed
  moreover have "architecture = k" if "is_architecture g k"
  proof -
    from that have "a = k" using range_params_architecture[OF run noA] k' by blast
    moreover from that noA have "k \<noteq> []" by (auto simp: is_architecture_def contains_def)
    ultimately show ?thesis using ar by simp
  qed
  ultimately show ?thesis by blast
qed

text \<open>
  Claim C3. Let the helper return a map with keys \<open>map fst kvs\<close>, visited in this order,
  and let no allow-list hold the empty string. \<open>parseOptions\<close> fails with "you may only
  specify one platform in options" exactly when the loop reaches (no earlier key has
  failed) a key of the platform allow-list after another, different key of that list;
  likewise for the architecture, for keys classified as architecture. A key the loop
  reaches that is in none of the three allow-lists and is not empty fails with
  "unrecognized option: " followed by the key, and a map holding such a key never
  parses. Nothing is overwritten silently: when \<open>parseOptions\<close> succeeds, every
  platform key of the map is the returned platform and every architecture key the
  returned architecture, so there is at most one of each.
\<close>

theorem parseOptions_only_one:
  assumes "paramsFromAnnotation g options = Inr kvs"
    and "distinct (map fst kvs)"
    and "[] \<notin> set (supportedPlatforms g)"
    and "[] \<notin> set (supportedArchitectures g)"
  shows
    "(parseOptions g options = Inl ''you may only specify one platform in options'' \<longleftrightarrow>
        (\<exists>pre opt rest st. map fst kvs = pre @ opt # rest \<and>
           range_params g ([], [], kvs) pre = Inr st \<and> is_platform g opt \<and>
           (\<exists>k \<in> set pre. k \<noteq> opt \<and> is_platform g k))) \<and>
     (parseOptions g options = Inl ''you may only specify one architecture in options'' \<longleftrightarrow>
        (\<exists>pre opt rest st. map fst kvs = pre @ opt # rest \<and>
           range_params g ([], [], kvs) pre = Inr st \<and> is_architecture g opt \<and>
           (\<exists>k \<in> set pre. k \<noteq> opt \<and> is_architecture g k))) \<and>
     (\<forall>pre opt rest st. map fst kvs = pre @ opt # rest \<and>
        range_params g ([], [], kvs) pre = Inr st \<and> unrecognized g opt \<longrightarrow>
        parseOptions g options = Inl (''unrecognized option: '' @ opt)) \<and>
     (\<forall>k \<in> fst ` set kvs. unrecognized g k \<longrightarrow> isl (parseOptions g options)) \<and>
     (\<forall>platform architecture params.
        parseOptions g options = Inr (platform, architecture, params) \<longrightarrow>
        (\<forall>k \<in> fst ` set kvs.
           (is_platform g k \<longrightarrow> platform = k) \<and> (is_architecture g k \<longrightarrow> architecture = k)))"
proof -
  note p = one_platform_iff[OF assms(1,2,3)]
  note a = one_architecture_iff[OF assms(1,2,4)]
  have u: "\<forall>pre opt rest st. map fst kvs = pre @ opt # rest \<and>
        range_params g ([], [], kvs) pre = Inr st \<and> unrecognized g opt \<longrightarrow>
        parseOptions g options = Inl (''unrecognized option: '' @ opt)"
    using unrecognized_reached[OF assms(1)] by blast
  have f: "\<forall>k \<in> fst ` set kvs. unrecognized g k \<longrightarrow> isl (parseOptions g options)"
    using unrecognized_fails[OF assms(1)] by blast
  have n: "\<forall>platform architecture params.
        parseOptions g options = Inr (platform, architecture, params) \<longrightarrow>
        (\<forall>k \<in> fst ` set kvs.
           (is_platform g k \<longrightarrow> platform = k) \<and> (is_architecture g k \<longrightarrow> architecture = k))"
    using parseOptions_no_overwrite[OF assms(1,3,4)] by blast
  from p a u f n show ?thesis by (intro conjI)
qed

theorem parseOptions_only_one_witness:
  "paramsFromAnnotation example_globals ''gcp,aws'' = Inr [(''gcp'', []), (''aws'', [])] \<and>
   distinct (map fst [(''gcp'', []), (''aws'', [])]) \<and>
   [] \<notin> set (supportedPlatforms example_globals) \<and>
   [] \<notin> set (supportedArchitectures example_globals) \<and>
   range_params example_globals ([], [], [(''gcp'', []), (''aws'', [])]) [''gcp''] =
     Inr (''gcp'', [], [(''aws'', [])]) \<and>
   parseOptions example_globals ''gcp,aws'' =
     Inl ''you may only specify one platform in options''"
proof -
  have h1: "paramsFromAnnotation example_globals ''gcp,aws'' =
      Inr [(''gcp'', []), (''aws'', [])]"
    by code_simp
  have h2: "distinct (map fst [(''gcp'', []), (''aws'', [])] :: string list)"
    by simp
  have h3: "[] \<notin> set (supportedPlatforms example_globals)"
    by (simp add: example_globals_def)
  have h4: "[] \<notin> set (supportedArchitectures example_globals)"
    by (simp add: example_globals_def)
  have run: "range_params example_globals ([], [], [(''gcp'', []), (''aws'', [])]) [''gcp''] =
      Inr (''gcp'', [], [(''aws'', [])])"
    by code_simp
  have second: "is_platform example_globals ''aws'' \<and>
      (\<exists>k \<in> set [''gcp'']. k \<noteq> ''aws'' \<and> is_platform example_globals k)"
    by (simp add: is_platform_def contains_def example_globals_def)
  have "\<exists>pre opt rest st. map fst [(''gcp'', []), (''aws'', [])] = pre @ opt # rest \<and>
      range_params example_globals ([], [], [(''gcp'', []), (''aws'', [])]) pre = Inr st \<and>
      is_platform example_globals opt \<and> (\<exists>k \<in> set pre. k \<noteq> opt \<and> is_platform example_globals k)"
    apply (rule exI[of _ "[''gcp'']"], rule exI[of _ "''aws''"], rule exI[of _ "[]"])
    apply (rule exI[of _ "(''gcp'', [], [(''aws'', [])])"])
    using run second by simp
  then have "parseOptions example_globals ''gcp,aws'' =
      Inl ''you may only specify one platform in options''"
    by (rule iffD2[OF parseOptions_only_one[OF h1 h2 h3 h4, THEN conjunct1]])
  with h1 h2 h3 h4 run show ?thesis by (intro conjI)
qed

text \<open>
  Claim C4. When \<open>parseOptions\<close> succeeds, the returned mapping has no key of the
  platform allow-list, none of the architecture allow-list and no empty key: it is the
  helper's map without these keys, every other entry kept. The returned platform is
  "gcp" when no key is a platform, and the returned architecture is "amd64" when no
  key is classified as architecture.
\<close>

theorem parseOptions_mapping:
  assumes "paramsFromAnnotation g options = Inr kvs"
    and "parseOptions g options = Inr (platform, architecture, params)"
  shows
    "(\<forall>k \<in> fst ` set params.
        \<not> contains (supportedPlatforms g) k \<and> \<not> contains (supportedArchitectures g) k \<and>
        k \<noteq> []) \<and>
     params = filter (\<lambda>kv. \<not> contains (supportedPlatforms g) (fst kv) \<and>
        \<not> contains (supportedArchitectures g) (fst kv) \<and> fst kv \<noteq> []) kvs \<and>
     ((\<forall>k \<in> fst ` set kvs. \<not> is_platform g k) \<longrightarrow> platform = ''gcp'') \<and>
     ((\<forall>k \<in> fst ` set kvs. \<not> is_architecture g k) \<longrightarrow> architecture = ''amd64'')"
proof -
  from assms(2) obtain p a where
    run: "range_params g ([], [], kvs) (map fst kvs) = Inr (p, a, params)"
    and pl: "platform = (if p = [] then ''gcp'' else p)"
    and ar: "architecture = (if a = [] then ''amd64'' else a)"
    using parseOptions_Inr_iff[OF assms(1)] by blast
  have kept: "params = filter (\<lambda>kv. \<not> contains (supportedPlatforms g) (fst kv) \<and>
        \<not> contains (supportedArchitectures g) (fst kv) \<and> fst kv \<noteq> []) kvs"
    unfolding range_params_params[OF run]
    by (rule filter_cong) (auto simp: is_platform_def is_architecture_def)
  have keys: "\<forall>k \<in> fst ` set params.
        \<not> contains (supportedPlatforms g) k \<and> \<not> contains (supportedArchitectures g) k \<and>
        k \<noteq> []"
    by (subst kept) auto
  have dp: "platform = ''gcp''" if "\<forall>k \<in> fst ` set kvs. \<not> is_platform g k"
    using range_params_keeps_platform[OF run] that pl by simp
  have da: "architecture = ''amd64''" if "\<forall>k \<in> fst ` set kvs. \<not> is_architecture g k"
    using range_params_keeps_architecture[OF run] that ar by simp
  from keys kept dp da show ?thesis by blast
qed

theorem parseOptions_mapping_witness:
  "paramsFromAnnotation example_globals ''arm64,,test=e2e'' =
     Inr [(''arm64'', []), ([], []), (''test'', ''e2e'')] \<and>
   parseOptions example_globals ''arm64,,test=e2e'' =
     Inr (''gcp'', ''arm64'', [(''test'', ''e2e'')]) \<and>
   parseOptions example_globals '''' = Inr (''gcp'', ''amd64'', []) \<and>
   \<not> contains (supportedPlatforms example_globals) ''test'' \<and>
   \<not> contains (supportedArchitectures example_globals) ''test''"
proof -
  have h1: "paramsFromAnnotation example_globals ''arm64,,test=e2e'' =
      Inr [(''arm64'', []), ([], []), (''test'', ''e2e'')]"
    by code_simp
  have h2: "parseOptions example_globals ''arm64,,test=e2e'' =
      Inr (''gcp'', ''arm64'', [(''test'', ''e2e'')])"
    by code_simp
  have h3: "parseOptions example_globals '''' = Inr (''gcp'', ''amd64'', [])"
    by code_simp
  have "\<forall>k \<in> fst ` set [(''test'', ''e2e'')].
      \<not> contains (supportedPlatforms example_globals) k \<and>
      \<not> contains (supportedArchitectures example_globals) k \<and> k \<noteq> []"
    by (rule parseOptions_mapping[OF h1 h2, THEN conjunct1])
  then have "\<not> contains (supportedPlatforms example_globals) ''test'' \<and>
      \<not> contains (supportedArchitectures example_globals) ''test''"
    by simp
  with h1 h2 h3 show ?thesis by simp
qed


section \<open>Jobs, time and the notification formatter\<close>

text \<open>
  The job types and the states of a Prow job are declared outside \<open>slack.go\<close>
  (the constants \<open>JobType...\<close> of this package, and the states of
  \<open>prowapiv1\<close>). They are strings in Go; each datatype has one constructor for
  every constant and one more for any other value.
\<close>

datatype JobType =
  JobTypeBuild | JobTypeInstall | JobTypeLaunch | JobTypeTest | JobTypeUpgrade
  | JobTypeWorkflowLaunch | JobTypeOther

datatype ProwJobState =
  TriggeredState | PendingState | SuccessState | FailureState | AbortedState | ErrorState
  | OtherState

text \<open>
  A \<open>time.Time\<close> is a number of nanoseconds since a fixed instant and a
  \<open>time.Duration\<close> a number of nanoseconds in the range of \<open>int64\<close>. \<open>t.Sub(u)\<close> is the
  difference, replaced by the least or the greatest duration when it is out of that
  range. Go's \<open>/\<close> on integers truncates towards zero: it is \<open>sdiv\<close>.
\<close>

type_synonym Time = int
type_synonym Duration = int

definition minDuration :: Duration where
  "minDuration = - (2 ^ 63)"

definition maxDuration :: Duration where
  "maxDuration = 2 ^ 63 - 1"

definition Minute :: Duration where
  "Minute = 60 * 1000000000"

definition Sub :: "Time \<Rightarrow> Time \<Rightarrow> Duration" where
  "Sub t u =
     (if t - u < minDuration then minDuration
      else if t - u > maxDuration then maxDuration
      else t - u)"

text \<open>The verb \<open>%d\<close> of \<open>fmt.Sprintf\<close>: an integer in decimal.\<close>

fun digits :: "nat \<Rightarrow> string" where
  "digits n =
     (if n < 10 then [char_of (48 + n)]
      else digits (n div 10) @ [char_of (48 + n mod 10)])"

declare digits.simps [simp del]

definition fmt_d :: "int \<Rightarrow> string" where
  "fmt_d i = (if i < 0 then CHR ''-'' # digits (nat (- i)) else digits (nat i))"

text \<open>
  What the code reads from its environment: \<open>time.Now()\<close>, and the layout function
  \<open>t.Format("2006-01-02-150405")\<close> of the standard library, taken as a parameter.
\<close>

record runtime =
  Now :: Time
  Format :: "Time \<Rightarrow> string"

text \<open>
  \<open>JobRequest\<close> and \<open>Job\<close> are declared outside \<open>slack.go\<close>; the records have the
  fields that \<open>slack.go\<close> reads or writes.
\<close>

record JobRequest =
  OriginalMessage :: string
  User :: string
  Inputs :: "string list list"
  Type :: JobType
  Channel :: string
  Platform :: string
  JobParams :: params
  Architecture :: string
  WorkflowName :: string

record Job =
  Mode :: JobType
  State :: ProwJobState
  URL :: string
  Credentials :: string
  Failure :: string
  PasswordSnippet :: string
  OriginalMessage :: string
  RequestedAt :: Time
  ExpiresAt :: Time
  LegacyConfig :: bool
  RequestedChannel :: string
  RequestedBy :: string

text \<open>
  What a handler does is the list of its effects, in order: a reply on the response
  writer, a file upload (the parameters passed to \<open>UploadFile\<close>; an error of the
  upload is only logged) and a call of the job manager. Log lines are left out.
\<close>

record FileUploadParameters =
  Content :: string
  Channels :: "string list"
  Filename :: string
  Filetype :: string
  InitialComment :: string

datatype event =
  Reply string
  | UploadFile FileUploadParameters
  | CallLaunchJobForUser JobRequest
  | CallSyncJobForUser string
  | CallTerminateJobForUser string
  | CallGetLaunchJob string

text \<open>\<open>sendKubeconfig\<close> (slack.go, lines 516 to 529).\<close>

definition sendKubeconfig :: "string \<Rightarrow> string \<Rightarrow> string \<Rightarrow> string \<Rightarrow> event list" where
  "sendKubeconfig channel contents comment identifier =
     [UploadFile
        \<lparr>Content = contents,
         Channels = [channel],
         Filename = ''cluster-bot-'' @ identifier @ ''.kubeconfig'',
         Filetype = ''text'',
         InitialComment = comment\<rparr>]"

text \<open>
  \<open>notifyJob\<close> (slack.go, lines 447 to 514). \<open>notifyJob_launch\<close> is the first
  \<open>switch\<close>, for the modes \<open>JobTypeLaunch\<close> and \<open>JobTypeWorkflowLaunch\<close>;
  \<open>notifyJob_running\<close> is the last \<open>switch\<close>, reached when neither \<open>switch\<close> on
  \<open>job.State\<close> has returned.
\<close>

definition launch_mode :: "Job \<Rightarrow> bool" where
  "launch_mode job = (Mode job = JobTypeLaunch \<or> Mode job = JobTypeWorkflowLaunch)"

definition terminal_failure :: "Job \<Rightarrow> bool" where
  "terminal_failure job =
     (State job = FailureState \<or> State job = AbortedState \<or> State job = ErrorState)"

definition legacy_warning :: string where
  "legacy_warning =
     ''WARNING: using legacy template based job for this cluster. This is unsupported and the cluster may not install as expected. Contact #forum-crt for more information.''"

definition notifyJob_launch :: "runtime \<Rightarrow> Job \<Rightarrow> event list" where
  "notifyJob_launch rt job =
     (if LegacyConfig job then [Reply legacy_warning] else []) @
     (if length (Failure job) > 0 \<and> length (URL job) > 0 then
        [Reply (''your cluster failed to launch: '' @ Failure job @ '' (<'' @ URL job @ ''|logs>)'')]
      else if length (Failure job) > 0 then
        [Reply (''your cluster failed to launch: '' @ Failure job)]
      else if length (Credentials job) = 0 \<and> length (URL job) > 0 then
        [Reply (''cluster is still starting (launched '' @
           fmt_d (Sub (Now rt) (RequestedAt job) sdiv Minute) @
           '' minutes ago, <'' @ URL job @ ''|logs>)'')]
      else if length (Credentials job) = 0 then
        [Reply (''cluster is still starting (launched '' @
           fmt_d (Sub (Now rt) (RequestedAt job) sdiv Minute) @ '' minutes ago)'')]
      else
        let comment = ''Your cluster is ready, it will be shut down automatically in ~'' @
              fmt_d (Sub (ExpiresAt job) (Now rt) sdiv Minute) @ '' minutes.'';
            comment = (if length (PasswordSnippet job) > 0
                       then comment @ [CHR 0x0A] @ PasswordSnippet job else comment)
        in sendKubeconfig (RequestedChannel job) (Credentials job) comment
             (Format rt (RequestedAt job)))"

definition notifyJob_running :: "runtime \<Rightarrow> Job \<Rightarrow> event list" where
  "notifyJob_running rt job =
     (if length (Credentials job) = 0 \<and> length (URL job) > 0 then
        if length (OriginalMessage job) > 0 then
          [Reply (''job <'' @ URL job @ ''|'' @ OriginalMessage job @ ''> is running'')]
        else
          [Reply (''job is running, see '' @ URL job @ '' for details'')]
      else if length (Credentials job) = 0 then
        [Reply (''job is running (launched '' @
           fmt_d (Sub (Now rt) (RequestedAt job) sdiv Minute) @ '' minutes ago)'')]
      else
        let comment = ''Your job has started a cluster, it will be shut down when the test ends.'';
            comment = (if length (URL job) > 0
                       then comment @ '' See '' @ URL job @ '' for details.'' else comment);
            comment = (if length (PasswordSnippet job) > 0
                       then comment @ [CHR 0x0A] @ PasswordSnippet job else comment)
        in sendKubeconfig (RequestedChannel job) (Credentials job) comment
             (Format rt (RequestedAt job)))"

definition notifyJob :: "runtime \<Rightarrow> Job \<Rightarrow> event list" where
  "notifyJob rt job =
     (if launch_mode job then notifyJob_launch rt job
      else if length (URL job) > 0 then
        if terminal_failure job then
          [Reply (''job <'' @ URL job @ ''|'' @ OriginalMessage job @ ''> failed'')]
        else if State job = SuccessState then
          [Reply (''job <'' @ URL job @ ''|'' @ OriginalMessage job @ ''> succeeded'')]
        else notifyJob_running rt job
      else
        if terminal_failure job then
          [Reply (''job '' @ OriginalMessage job @ '' failed, but no details could be retrieved'')]
        else if State job = SuccessState then
          [Reply (''job '' @ OriginalMessage job @ '' succeded, but no details could be retrieved'')]
        else notifyJob_running rt job)"

text \<open>\<open>jobResponder\<close> (slack.go, lines 425 to 445).\<close>

definition jobResponder :: "runtime \<Rightarrow> Job \<Rightarrow> event list" where
  "jobResponder rt job =
     (if length (RequestedChannel job) = 0 \<or> length (RequestedBy job) = 0 then []
      else if launch_mode job then
        if length (Credentials job) = 0 \<and> length (Failure job) = 0 then []
        else notifyJob rt job
      else
        if length (URL job) = 0 \<and> length (Failure job) = 0 then []
        else notifyJob rt job)"

text \<open>Example values.\<close>

definition example_runtime :: runtime where
  "example_runtime = \<lparr>Now = 100000000000, Format = (\<lambda>t. ''1970-01-01-000000'')\<rparr>"

definition example_job :: Job where
  "example_job =
     \<lparr>Mode = JobTypeTest, State = FailureState, URL = [], Credentials = [], Failure = [],
      PasswordSnippet = [], OriginalMessage = ''test e2e 4.12'', RequestedAt = 0,
      ExpiresAt = 70000000000, LegacyConfig = False, RequestedChannel = ''D123'',
      RequestedBy = ''U1''\<rparr>"

definition example_launch_job :: Job where
  "example_launch_job =
     \<lparr>Mode = JobTypeLaunch, State = PendingState, URL = ''https://prow/1'',
      Credentials = ''kubeconfig'', Failure = [], PasswordSnippet = ''password: x'',
      OriginalMessage = ''launch 4.12'', RequestedAt = 0, ExpiresAt = 70000000000,
      LegacyConfig = False, RequestedChannel = ''D123'', RequestedBy = ''U1''\<rparr>"

text \<open>An effect that is a file upload.\<close>

fun is_upload :: "event \<Rightarrow> bool" where
  "is_upload (UploadFile p) = True"
| "is_upload e = False"

text \<open>An effect that is a call of the job manager.\<close>

fun is_call :: "event \<Rightarrow> bool" where
  "is_call (Reply s) = False"
| "is_call (UploadFile p) = False"
| "is_call e = True"

text \<open>The checks of \<open>jobResponder\<close>, all passed.\<close>

definition passes_checks :: "Job \<Rightarrow> bool" where
  "passes_checks job =
     (RequestedChannel job \<noteq> [] \<and> RequestedBy job \<noteq> [] \<and>
      (if launch_mode job then Credentials job \<noteq> [] \<or> Failure job \<noteq> []
       else URL job \<noteq> [] \<or> Failure job \<noteq> []))"

lemma notifyJob_not_Nil: "notifyJob rt job \<noteq> []"
  by (simp add: notifyJob_def notifyJob_launch_def notifyJob_running_def sendKubeconfig_def
      Let_def)

text \<open>
  Claim C1, as stated, fails: a test job in state failure with no URL and no
  credentials is answered with "failed, but no details could be retrieved", not with
  the minutes since the request.
\<close>

theorem notifyJob_terminal_no_url_counterexample:
  "\<not> launch_mode example_job \<and> terminal_failure example_job \<and>
   URL example_job = [] \<and> Credentials example_job = [] \<and>
   notifyJob example_runtime example_job =
     [Reply ''job test e2e 4.12 failed, but no details could be retrieved''] \<and>
   notifyJob_running example_runtime example_job =
     [Reply ''job is running (launched 1 minutes ago)''] \<and>
   notifyJob example_runtime example_job \<noteq> notifyJob_running example_runtime example_job"
proof -
  have a: "notifyJob example_runtime example_job =
     [Reply ''job test e2e 4.12 failed, but no details could be retrieved'']"
    by code_simp
  have b: "notifyJob_running example_runtime example_job =
     [Reply ''job is running (launched 1 minutes ago)'']"
    by code_simp
  have c: "\<not> launch_mode example_job \<and> terminal_failure example_job \<and>
     URL example_job = [] \<and> Credentials example_job = []"
    by (simp add: launch_mode_def terminal_failure_def example_job_def)
  from a b c show ?thesis by simp
qed

text \<open>
  Claim C1, amended. For a job that is not in a launch mode and has no report URL:
  in state failure, aborted or error the reply is "job <original message> failed, but
  no details could be retrieved", in state success it is "job <original message>
  succeded, but no details could be retrieved", and nothing else is sent. Only in
  another state does the rendering fall through to the running rendering, which with
  no credentials reports the minutes since the request.
\<close>

theorem notifyJob_terminal_no_url:
  assumes "\<not> launch_mode job" and "URL job = []"
  shows
    "(terminal_failure job \<longrightarrow>
        notifyJob rt job =
          [Reply (''job '' @ OriginalMessage job @
             '' failed, but no details could be retrieved'')]) \<and>
     (State job = SuccessState \<longrightarrow>
        notifyJob rt job =
          [Reply (''job '' @ OriginalMessage job @
             '' succeded, but no details could be retrieved'')]) \<and>
     (\<not> terminal_failure job \<and> State job \<noteq> SuccessState \<longrightarrow>
        notifyJob rt job = notifyJob_running rt job \<and>
        (Credentials job = [] \<longrightarrow>
           notifyJob rt job =
             [Reply (''job is running (launched '' @
                fmt_d (Sub (Now rt) (RequestedAt job) sdiv Minute) @ '' minutes ago)'')]))"
  using assms
  by (auto simp: notifyJob_def notifyJob_running_def terminal_failure_def)

theorem notifyJob_terminal_no_url_witness:
  "\<not> launch_mode example_job \<and> URL example_job = [] \<and> terminal_failure example_job \<and>
   notifyJob example_runtime example_job =
     [Reply ''job test e2e 4.12 failed, but no details could be retrieved''] \<and>
   notifyJob example_runtime (example_job\<lparr>State := PendingState\<rparr>) =
     [Reply ''job is running (launched 1 minutes ago)'']"
proof -
  have h1: "\<not> launch_mode example_job" "URL example_job = []" "terminal_failure example_job"
    by (simp_all add: launch_mode_def terminal_failure_def example_job_def)
  have a: "notifyJob example_runtime example_job =
     [Reply ''job test e2e 4.12 failed, but no details could be retrieved'']"
    using notifyJob_terminal_no_url[OF h1(1,2), of example_runtime] h1(3)
    by (simp add: example_job_def)
  let ?p = "example_job\<lparr>State := PendingState\<rparr>"
  have h2: "\<not> launch_mode ?p" "URL ?p = []"
    "\<not> terminal_failure ?p \<and> State ?p \<noteq> SuccessState" "Credentials ?p = []"
    by (simp_all add: launch_mode_def terminal_failure_def example_job_def)
  have m: "fmt_d (Sub (Now example_runtime) (RequestedAt example_job) sdiv Minute) = ''1''"
    by code_simp
  have "notifyJob example_runtime ?p =
      [Reply (''job is running (launched '' @
         fmt_d (Sub (Now example_runtime) (RequestedAt ?p) sdiv Minute) @ '' minutes ago)'')]"
    using notifyJob_terminal_no_url[OF h2(1,2), of example_runtime] h2(3,4)
    by blast
  then have b: "notifyJob example_runtime ?p =
      [Reply ''job is running (launched 1 minutes ago)'']"
    by (simp add: m)
  from h1 a b show ?thesis by simp
qed

text \<open>
  Claim C2, as stated, fails twice: a launch job with credentials and a failure is
  answered with the failure and no attachment; and for a job that expired 30 seconds
  ago the message says 0 minutes, where the floor of the quotient is -1.
\<close>

theorem notifyJob_ready_counterexample:
  "launch_mode (example_launch_job\<lparr>Failure := ''boom'', URL := []\<rparr>) \<and>
   Credentials (example_launch_job\<lparr>Failure := ''boom'', URL := []\<rparr>) \<noteq> [] \<and>
   notifyJob example_runtime (example_launch_job\<lparr>Failure := ''boom'', URL := []\<rparr>) =
     [Reply ''your cluster failed to launch: boom''] \<and>
   launch_mode example_launch_job \<and> Credentials example_launch_job \<noteq> [] \<and>
   (ExpiresAt example_launch_job - Now example_runtime) div Minute = - 1 \<and>
   notifyJob example_runtime example_launch_job =
     [UploadFile
        \<lparr>Content = ''kubeconfig'', Channels = [''D123''],
         Filename = ''cluster-bot-1970-01-01-000000.kubeconfig'', Filetype = ''text'',
         InitialComment =
           ''Your cluster is ready, it will be shut down automatically in ~0 minutes.'' @
           [CHR 0x0A] @ ''password: x''\<rparr>]"
proof -
  have a: "notifyJob example_runtime (example_launch_job\<lparr>Failure := ''boom'', URL := []\<rparr>) =
     [Reply ''your cluster failed to launch: boom'']"
    by code_simp
  have b: "(ExpiresAt example_launch_job - Now example_runtime) div Minute = - 1"
    by (simp add: example_launch_job_def example_runtime_def Minute_def)
  have c: "notifyJob example_runtime example_launch_job =
     [UploadFile
        \<lparr>Content = ''kubeconfig'', Channels = [''D123''],
         Filename = ''cluster-bot-1970-01-01-000000.kubeconfig'', Filetype = ''text'',
         InitialComment =
           ''Your cluster is ready, it will be shut down automatically in ~0 minutes.'' @
           [CHR 0x0A] @ ''password: x''\<rparr>]"
    by code_simp
  have d: "launch_mode (example_launch_job\<lparr>Failure := ''boom'', URL := []\<rparr>)"
    "Credentials (example_launch_job\<lparr>Failure := ''boom'', URL := []\<rparr>) \<noteq> []"
    "launch_mode example_launch_job" "Credentials example_launch_job \<noteq> []"
    by (simp_all add: launch_mode_def example_launch_job_def)
  from a b c d show ?thesis by (intro conjI)
qed

lemma sdiv_Minute:
  "(0 \<le> d \<longrightarrow> d sdiv Minute = d div Minute) \<and>
   (d < 0 \<longrightarrow> d sdiv Minute = - ((- d) div Minute))"
  by (auto simp: signed_divide_int_def Minute_def sgn_if)

text \<open>
  Claim C2, amended. For a job in a launch mode with credentials and no failure,
  \<open>notifyJob\<close> sends the legacy warning if the flag is set and then uploads the
  credentials exactly once: to the requested channel, under the file name
  "cluster-bot-" followed by the formatted \<open>RequestedAt\<close> and ".kubeconfig", with the
  ready message as comment, followed by a new line and the password hint when there
  is one. The minute count of the message is the quotient of \<open>ExpiresAt - now\<close> by a
  minute truncated towards zero: the floor when the difference is not negative, and
  minus the floor of the negated difference when it is negative; the difference is
  exact within the range of a duration. A job in a launch mode with a failure gets,
  after the legacy warning if the flag is set, the failure message (with the link to
  the logs when it has a URL) and no upload, whatever its credentials are.
\<close>

theorem notifyJob_ready:
  assumes "launch_mode job"
  shows
    "(Credentials job \<noteq> [] \<and> Failure job = [] \<longrightarrow>
        notifyJob rt job =
          (if LegacyConfig job then [Reply legacy_warning] else []) @
          [UploadFile
             \<lparr>Content = Credentials job,
              Channels = [RequestedChannel job],
              Filename = ''cluster-bot-'' @ Format rt (RequestedAt job) @ ''.kubeconfig'',
              Filetype = ''text'',
              InitialComment =
                ''Your cluster is ready, it will be shut down automatically in ~'' @
                fmt_d (Sub (ExpiresAt job) (Now rt) sdiv Minute) @ '' minutes.'' @
                (if PasswordSnippet job = [] then []
                 else CHR 0x0A # PasswordSnippet job)\<rparr>] \<and>
        length (filter is_upload (notifyJob rt job)) = 1 \<and>
        (0 \<le> Sub (ExpiresAt job) (Now rt) \<longrightarrow>
           Sub (ExpiresAt job) (Now rt) sdiv Minute =
             Sub (ExpiresAt job) (Now rt) div Minute) \<and>
        (Sub (ExpiresAt job) (Now rt) < 0 \<longrightarrow>
           Sub (ExpiresAt job) (Now rt) sdiv Minute =
             - ((- Sub (ExpiresAt job) (Now rt)) div Minute)) \<and>
        (minDuration \<le> ExpiresAt job - Now rt \<and> ExpiresAt job - Now rt \<le> maxDuration \<longrightarrow>
           Sub (ExpiresAt job) (Now rt) = ExpiresAt job - Now rt)) \<and>
     (Failure job \<noteq> [] \<longrightarrow>
        notifyJob rt job =
          (if LegacyConfig job then [Reply legacy_warning] else []) @
          [Reply (''your cluster failed to launch: '' @ Failure job @
             (if URL job = [] then [] else '' (<'' @ URL job @ ''|logs>)''))] \<and>
        filter is_upload (notifyJob rt job) = [])"
proof -
  have ready: "notifyJob rt job =
          (if LegacyConfig job then [Reply legacy_warning] else []) @
          [UploadFile
             \<lparr>Content = Credentials job,
              Channels = [RequestedChannel job],
              Filename = ''cluster-bot-'' @ Format rt (RequestedAt job) @ ''.kubeconfig'',
              Filetype = ''text'',
              InitialComment =
                ''Your cluster is ready, it will be shut down automatically in ~'' @
                fmt_d (Sub (ExpiresAt job) (Now rt) sdiv Minute) @ '' minutes.'' @
                (if PasswordSnippet job = [] then []
                 else CHR 0x0A # PasswordSnippet job)\<rparr>] \<and>
        length (filter is_upload (notifyJob rt job)) = 1 \<and>
        (0 \<le> Sub (ExpiresAt job) (Now rt) \<longrightarrow>
           Sub (ExpiresAt job) (Now rt) sdiv Minute =
             Sub (ExpiresAt job) (Now rt) div Minute) \<and>
        (Sub (ExpiresAt job) (Now rt) < 0 \<longrightarrow>
           Sub (ExpiresAt job) (Now rt) sdiv Minute =
             - ((- Sub (ExpiresAt job) (Now rt)) div Minute)) \<and>
        (minDuration \<le> ExpiresAt job - Now rt \<and> ExpiresAt job - Now rt \<le> maxDuration \<longrightarrow>
           Sub (ExpiresAt job) (Now rt) = ExpiresAt job - Now rt)"
    if c: "Credentials job \<noteq> [] \<and> Failure job = []"
  proof -
    have msg: "notifyJob rt job =
          (if LegacyConfig job then [Reply legacy_warning] else []) @
          [UploadFile
             \<lparr>Content = Credentials job,
              Channels = [RequestedChannel job],
              Filename = ''cluster-bot-'' @ Format rt (RequestedAt job) @ ''.kubeconfig'',
              Filetype = ''text'',
              InitialComment =
                ''Your cluster is ready, it will be shut down automatically in ~'' @
                fmt_d (Sub (ExpiresAt job) (Now rt) sdiv Minute) @ '' minutes.'' @
                (if PasswordSnippet job = [] then []
                 else CHR 0x0A # PasswordSnippet job)\<rparr>]"
      using assms c
      by (simp add: notifyJob_def notifyJob_launch_def sendKubeconfig_def Let_def)
    have once: "length (filter is_upload (notifyJob rt job)) = 1"
      by (simp add: msg)
    have sub: "Sub (ExpiresAt job) (Now rt) = ExpiresAt job - Now rt"
      if "minDuration \<le> ExpiresAt job - Now rt \<and> ExpiresAt job - Now rt \<le> maxDuration"
      using that by (simp add: Sub_def)
    from msg once sdiv_Minute[of "Sub (ExpiresAt job) (Now rt)"] sub show ?thesis
      by (intro conjI impI) simp_all
  qed
  have failed: "notifyJob rt job =
          (if LegacyConfig job then [Reply legacy_warning] else []) @
          [Reply (''your cluster failed to launch: '' @ Failure job @
             (if URL job = [] then [] else '' (<'' @ URL job @ ''|logs>)''))] \<and>
        filter is_upload (notifyJob rt job) = []"
    if "Failure job \<noteq> []"
    using assms that by (simp add: notifyJob_def notifyJob_launch_def)
  from ready failed show ?thesis by (intro conjI) iprover+
qed

theorem notifyJob_ready_witness:
  "launch_mode example_launch_job \<and> Credentials example_launch_job \<noteq> [] \<and>
   Failure example_launch_job = [] \<and>
   length (filter is_upload (notifyJob example_runtime example_launch_job)) = 1 \<and>
   launch_mode (example_launch_job\<lparr>Failure := ''boom''\<rparr>) \<and>
   Credentials (example_launch_job\<lparr>Failure := ''boom''\<rparr>) \<noteq> [] \<and>
   notifyJob example_runtime (example_launch_job\<lparr>Failure := ''boom''\<rparr>) =
     [Reply ''your cluster failed to launch: boom (<https://prow/1|logs>)''] \<and>
   filter is_upload (notifyJob example_runtime (example_launch_job\<lparr>Failure := ''boom''\<rparr>)) = []"
proof -
  have h: "launch_mode example_launch_job"
    by (simp add: launch_mode_def example_launch_job_def)
  have c: "Credentials example_launch_job \<noteq> [] \<and> Failure example_launch_job = []"
    by (simp add: example_launch_job_def)
  have once: "length (filter is_upload (notifyJob example_runtime example_launch_job)) = 1"
    using notifyJob_ready[OF h, of example_runtime, THEN conjunct1, rule_format, OF c]
    by (elim conjE)
  let ?f = "example_launch_job\<lparr>Failure := ''boom''\<rparr>"
  have hf: "launch_mode ?f" "Credentials ?f \<noteq> []" "Failure ?f \<noteq> []"
    by (simp_all add: launch_mode_def example_launch_job_def)
  note f = notifyJob_ready[OF hf(1), of example_runtime, THEN conjunct2, rule_format, OF hf(3)]
  have msg: "notifyJob example_runtime ?f =
      [Reply ''your cluster failed to launch: boom (<https://prow/1|logs>)'']"
    using f[THEN conjunct1] by (simp add: example_launch_job_def)
  have none: "filter is_upload (notifyJob example_runtime ?f) = []"
    using f[THEN conjunct2] .
  from h c once hf(1,2) msg none show ?thesis by (intro conjI) simp_all
qed

text \<open>
  Claim C10. \<open>jobResponder\<close> emits nothing for a job with no requested channel or no
  requesting user, for a job in a launch mode with neither credentials nor failure,
  and for another job with neither URL nor failure. A job that passes these checks
  is handed to \<open>notifyJob\<close>, which always emits something; so the responder emits
  something only for the jobs that pass the checks.
\<close>

theorem jobResponder_drops:
  "(RequestedChannel job = [] \<or> RequestedBy job = [] \<longrightarrow> jobResponder rt job = []) \<and>
   (launch_mode job \<and> Credentials job = [] \<and> Failure job = [] \<longrightarrow>
      jobResponder rt job = []) \<and>
   (\<not> launch_mode job \<and> URL job = [] \<and> Failure job = [] \<longrightarrow> jobResponder rt job = []) \<and>
   (passes_checks job \<longrightarrow> jobResponder rt job = notifyJob rt job \<and> notifyJob rt job \<noteq> []) \<and>
   (jobResponder rt job \<noteq> [] \<longrightarrow> passes_checks job)"
  using notifyJob_not_Nil[of rt job]
  by (auto simp: jobResponder_def passes_checks_def)

theorem jobResponder_drops_witness:
  "jobResponder example_runtime (example_launch_job\<lparr>RequestedBy := []\<rparr>) = [] \<and>
   jobResponder example_runtime (example_launch_job\<lparr>Credentials := []\<rparr>) = [] \<and>
   jobResponder example_runtime example_job = [] \<and>
   passes_checks example_launch_job \<and>
   jobResponder example_runtime example_launch_job =
     notifyJob example_runtime example_launch_job"
proof -
  have a: "jobResponder example_runtime (example_launch_job\<lparr>RequestedBy := []\<rparr>) = []"
    using jobResponder_drops[of "example_launch_job\<lparr>RequestedBy := []\<rparr>" example_runtime]
    by simp
  have b: "jobResponder example_runtime (example_launch_job\<lparr>Credentials := []\<rparr>) = []"
    using jobResponder_drops[of "example_launch_job\<lparr>Credentials := []\<rparr>" example_runtime]
    by (simp add: launch_mode_def example_launch_job_def)
  have c: "jobResponder example_runtime example_job = []"
    using jobResponder_drops[of example_job example_runtime]
    by (simp add: launch_mode_def example_job_def)
  have p: "passes_checks example_launch_job"
    by (simp add: passes_checks_def launch_mode_def example_launch_job_def)
  have d: "jobResponder example_runtime example_launch_job =
      notifyJob example_runtime example_launch_job"
    using jobResponder_drops[of example_launch_job example_runtime] p by simp
  from a b c p d show ?thesis by (intro conjI)
qed


section \<open>The command handlers\<close>

text \<open>More of package \<open>strings\<close>, and the small helpers of \<open>slack.go\<close>.\<close>

definition Contains :: "string \<Rightarrow> string \<Rightarrow> bool" where
  "Contains s substr = (Index s substr \<noteq> None)"

definition TrimPrefix :: "string \<Rightarrow> string \<Rightarrow> string" where
  "TrimPrefix s prefix = (if HasPrefix s prefix then drop (length prefix) s else s)"

definition TrimSuffix :: "string \<Rightarrow> string \<Rightarrow> string" where
  "TrimSuffix s suffix = (if HasSuffix s suffix then take (length s - length suffix) s else s)"

text \<open>\<open>isDirectMessage\<close> and \<open>codeSlice\<close> (slack.go, lines 552 to 562).\<close>

definition isDirectMessage :: "string \<Rightarrow> bool" where
  "isDirectMessage channel = HasPrefix channel ''D''"

definition codeSlice :: "string list \<Rightarrow> string list" where
  "codeSlice items = map (\<lambda>item. [CHR 0x60] @ item @ [CHR 0x60]) items"

text \<open>
  Of a \<open>slacker.Request\<close> the handlers read the user, the channel and the text of
  the event, and the parameters of the command through \<open>StringParam\<close>, which returns
  the default when the parameter is missing.
\<close>

record Request =
  Event_User :: string
  Event_Channel :: string
  Event_Text :: string
  Properties :: "string \<rightharpoonup> string"

definition StringParam :: "Request \<Rightarrow> string \<Rightarrow> string \<Rightarrow> string" where
  "StringParam request key defaultValue =
     (case Properties request key of None \<Rightarrow> defaultValue | Some v \<Rightarrow> v)"

text \<open>
  The job manager is an interface declared outside \<open>slack.go\<close>. A handler calls it at
  most once, so its answer is a function of the arguments: the error (left) or the
  message or job (right). The call itself is recorded among the effects.
\<close>

record JobManager =
  LaunchJobForUser :: "JobRequest \<Rightarrow> string + string"
  SyncJobForUser :: "string \<Rightarrow> string + string"
  TerminateJobForUser :: "string \<Rightarrow> string + string"
  GetLaunchJob :: "string \<Rightarrow> string + Job"

text \<open>
  The entries of \<open>b.workflowConfig.Workflows\<close>, of which the handler reads the
  platform and the architecture. The read lock around the lookup is not modelled.
\<close>

record Workflow =
  workflow_Platform :: string
  workflow_Architecture :: string

text \<open>
  The end of every handler that calls the manager: reply with the error, or else with
  the message.
\<close>

definition reply_result :: "string + string \<Rightarrow> event list" where
  "reply_result r = (case r of Inl err \<Rightarrow> [Reply err] | Inr msg \<Rightarrow> [Reply msg])"

text \<open>
  The handlers registered in \<open>Start\<close> (slack.go, lines 29 to 423), each named after
  its command. The result is the list of effects of one invocation.
\<close>

definition launch_handler :: "globals \<Rightarrow> JobManager \<Rightarrow> Request \<Rightarrow> event list" where
  "launch_handler g manager request =
     (let user = Event_User request;
          channel = Event_Channel request in
      if \<not> isDirectMessage channel then
        [Reply ''this command is only accepted via direct message'']
      else
        case parseImageInput (StringParam request ''image_or_version_or_pr'' []) of
          Inl err \<Rightarrow> [Reply err]
        | Inr from \<Rightarrow>
            let inputs = (if length from > 0 then [from] else []) in
            case parseOptions g (StringParam request ''options'' []) of
              Inl err \<Rightarrow> [Reply err]
            | Inr (platform, architecture, params) \<Rightarrow>
                if length (lookup params ''test'') > 0 then
                  [Reply ''Test arguments may not be passed from the launch command'']
                else
                  let req = \<lparr>JobRequest.OriginalMessage = stripLinks (Event_Text request),
                             User = user,
                             Inputs = inputs,
                             Type = JobTypeInstall,
                             Channel = channel,
                             Platform = platform,
                             JobParams = params,
                             Architecture = architecture,
                             WorkflowName = []\<rparr>
                  in CallLaunchJobForUser req # reply_result (LaunchJobForUser manager req))"

definition refresh_handler :: "JobManager \<Rightarrow> Request \<Rightarrow> event list" where
  "refresh_handler manager request =
     (let user = Event_User request;
          channel = Event_Channel request in
      if \<not> isDirectMessage channel then [Reply ''you must direct message me this request'']
      else CallSyncJobForUser user # reply_result (SyncJobForUser manager user))"

definition done_handler :: "JobManager \<Rightarrow> Request \<Rightarrow> event list" where
  "done_handler manager request =
     (let user = Event_User request;
          channel = Event_Channel request in
      if \<not> isDirectMessage channel then [Reply ''you must direct message me this request'']
      else CallTerminateJobForUser user # reply_result (TerminateJobForUser manager user))"

definition auth_handler :: "runtime \<Rightarrow> JobManager \<Rightarrow> Request \<Rightarrow> event list" where
  "auth_handler rt manager request =
     (let user = Event_User request;
          channel = Event_Channel request in
      if \<not> isDirectMessage channel then [Reply ''you must direct message me this request'']
      else
        CallGetLaunchJob user #
        (case GetLaunchJob manager user of
           Inl err \<Rightarrow> [Reply err]
         | Inr job \<Rightarrow> notifyJob rt (job\<lparr>RequestedChannel := channel\<rparr>)))"

definition test_upgrade_handler :: "globals \<Rightarrow> JobManager \<Rightarrow> Request \<Rightarrow> event list" where
  "test_upgrade_handler g manager request =
     (let user = Event_User request;
          channel = Event_Channel request in
      if \<not> isDirectMessage channel then
        [Reply ''this command is only accepted via direct message'']
      else
        case parseImageInput (StringParam request ''from'' []) of
          Inl err \<Rightarrow> [Reply err]
        | Inr from \<Rightarrow>
            if length from = 0 then
              [Reply ''you must specify an image to upgrade from and to'']
            else
              case parseImageInput (StringParam request ''to'' []) of
                Inl err \<Rightarrow> [Reply err]
              | Inr to \<Rightarrow>
                  let to = (if length to = 0 then from else to) in
                  case parseOptions g (StringParam request ''options'' []) of
                    Inl err \<Rightarrow> [Reply err]
                  | Inr (platform, architecture, params) \<Rightarrow>
                      let params = (if length (lookup params ''test'') = 0
                                    then AList.update ''test'' ''e2e-upgrade'' params
                                    else params) in
                      if \<not> Contains (lookup params ''test'') ''-upgrade'' then
                        [Reply ''Only upgrade type tests may be run from this command'']
                      else
                        let req = \<lparr>JobRequest.OriginalMessage = stripLinks (Event_Text request),
                                   User = user,
                                   Inputs = [from, to],
                                   Type = JobTypeUpgrade,
                                   Channel = channel,
                                   Platform = platform,
                                   JobParams = params,
                                   Architecture = architecture,
                                   WorkflowName = []\<rparr>
                        in CallLaunchJobForUser req #
                           reply_result (LaunchJobForUser manager req))"

definition test_handler :: "globals \<Rightarrow> JobManager \<Rightarrow> Request \<Rightarrow> event list" where
  "test_handler g manager request =
     (let user = Event_User request;
          channel = Event_Channel request in
      if \<not> isDirectMessage channel then
        [Reply ''this command is only accepted via direct message'']
      else
        case parseImageInput (StringParam request ''image_or_version_or_pr'' []) of
          Inl err \<Rightarrow> [Reply err]
        | Inr from \<Rightarrow>
            if length from = 0 then [Reply ''you must specify what will be tested'']
            else
              let test = StringParam request ''name'' [] in
              (if length test = 0 then
                 [Reply (''you must specify the name of a test: '' @
                    Join (codeSlice (supportedTests g)) '', '')]
               else []) @
              (if contains (supportedTests g) test then []
               else
                 [Reply (''warning: You are using a custom test name, may not be supported for all platforms: '' @
                    Join (codeSlice (supportedTests g)) '', '')]) @
              (case parseOptions g (StringParam request ''options'' []) of
                 Inl err \<Rightarrow> [Reply err]
               | Inr (platform, architecture, params) \<Rightarrow>
                   let params = AList.update ''test'' test params in
                   if Contains (lookup params ''test'') ''-upgrade'' then
                     [Reply (''Upgrade type tests require the '' @ [CHR 0x27] @
                        ''test upgrade'' @ [CHR 0x27] @ '' command'')]
                   else
                     let req = \<lparr>JobRequest.OriginalMessage = stripLinks (Event_Text request),
                                User = user,
                                Inputs = [from],
                                Type = JobTypeTest,
                                Channel = channel,
                                Platform = platform,
                                JobParams = params,
                                Architecture = architecture,
                                WorkflowName = []\<rparr>
                     in CallLaunchJobForUser req #
                        reply_result (LaunchJobForUser manager req)))"

definition build_handler :: "globals \<Rightarrow> JobManager \<Rightarrow> Request \<Rightarrow> event list" where
  "build_handler g manager request =
     (let user = Event_User request;
          channel = Event_Channel request in
      if \<not> isDirectMessage channel then
        [Reply ''this command is only accepted via direct message'']
      else
        case parseImageInput (StringParam request ''pullrequest'' []) of
          Inl err \<Rightarrow> [Reply err]
        | Inr from \<Rightarrow>
            if length from = 0 then
              [Reply ''you must specify at least one pull request to build a release image'']
            else
              case parseOptions g (StringParam request ''options'' []) of
                Inl err \<Rightarrow> [Reply err]
              | Inr (platform, architecture, params) \<Rightarrow>
                  let req = \<lparr>JobRequest.OriginalMessage = stripLinks (Event_Text request),
                             User = user,
                             Inputs = [from],
                             Type = JobTypeBuild,
                             Channel = channel,
                             Platform = platform,
                             JobParams = params,
                             Architecture = architecture,
                             WorkflowName = []\<rparr>
                  in CallLaunchJobForUser req # reply_result (LaunchJobForUser manager req))"

text \<open>
  The parameters of \<open>workflow-launch\<close> (lines 376 to 393): the pieces between
  \<open>","\<close>, without the quote that starts the first and the quote that ends the
  last; then the loop that splits each piece on \<open>=\<close>.
\<close>

definition splitParams :: "string \<Rightarrow> string list" where
  "splitParams params =
     (if length params > 0 then
        let sp = Split params [CHR 0x22, CHR '','', CHR 0x22];
            sp = sp[0 := TrimPrefix (sp ! 0) [CHR 0x22]];
            sp = sp[length sp - 1 := TrimSuffix (sp ! (length sp - 1)) [CHR 0x22]]
        in sp
      else [])"

fun workflow_jobParams :: "string list \<Rightarrow> params \<Rightarrow> string + params" where
  "workflow_jobParams [] jobParams = Inr jobParams"
| "workflow_jobParams (combinedParam # rest) jobParams =
     (let split = Split combinedParam ''='' in
      if length split \<noteq> 2 then
        Inl (''Unable to interpret '' @ [CHR 0x60] @ combinedParam @ [CHR 0x60] @
             '' as a parameter. Please ensure that all paramters are in the form of KEY=VALUE'')
      else workflow_jobParams rest (AList.update (split ! 0) (split ! 1) jobParams))"

definition workflow_launch_handler ::
  "globals \<Rightarrow> (string \<rightharpoonup> Workflow) \<Rightarrow> JobManager \<Rightarrow> Request \<Rightarrow> event list"
where
  "workflow_launch_handler g Workflows manager request =
     (let user = Event_User request;
          channel = Event_Channel request in
      if \<not> isDirectMessage channel then
        [Reply ''this command is only accepted via direct message'']
      else
        case parseImageInput (StringParam request ''image_or_version_or_pr'' []) of
          Inl err \<Rightarrow> [Reply err]
        | Inr from \<Rightarrow>
            if length from = 0 then [Reply ''you must specify what will be tested'']
            else
              let name = StringParam request ''name'' [] in
              if length name = 0 then
                [Reply (''you must specify the name of a workflow: '' @
                   Join (codeSlice (supportedTests g)) '', '')]
              else
                case Workflows name of
                  None \<Rightarrow>
                    [Reply (''Workflow '' @ name @ '' not in workflow list. Please add '' @
                       name @ '' to the workflows list before retrying this command'')]
                | Some workflow \<Rightarrow>
                    let platform = workflow_Platform workflow in
                    if workflow_Architecture workflow \<noteq> [] \<and>
                       \<not> contains (supportedArchitectures g) (workflow_Architecture workflow)
                    then
                      [Reply (''Architecture '' @ workflow_Architecture workflow @
                         '' not supported by cluster-bot'')]
                    else
                      let architecture =
                            (if workflow_Architecture workflow \<noteq> []
                             then workflow_Architecture workflow else ''amd64'') in
                      case workflow_jobParams
                             (splitParams (StringParam request ''parameters'' [])) [] of
                        Inl msg \<Rightarrow> [Reply msg]
                      | Inr jobParams \<Rightarrow>
                          let req = \<lparr>JobRequest.OriginalMessage =
                                       stripLinks (Event_Text request),
                                     User = user,
                                     Inputs = [from],
                                     Type = JobTypeWorkflowLaunch,
                                     Channel = channel,
                                     Platform = platform,
                                     JobParams = jobParams,
                                     Architecture = architecture,
                                     WorkflowName = name\<rparr>
                          in CallLaunchJobForUser req #
                             reply_result (LaunchJobForUser manager req))"

text \<open>Example values.\<close>

definition example_manager :: JobManager where
  "example_manager =
     \<lparr>LaunchJobForUser = (\<lambda>req. Inr ''job started''),
      SyncJobForUser = (\<lambda>user. Inr ''synced''),
      TerminateJobForUser = (\<lambda>user. Inl ''no job''),
      GetLaunchJob = (\<lambda>user. Inr example_launch_job)\<rparr>"

definition example_request :: Request where
  "example_request =
     \<lparr>Event_User = ''U1'', Event_Channel = ''D123'',
      Event_Text = ''test upgrade <http://a|4.11> 4.12 aws'',
      Properties = [''from'' \<mapsto> ''4.11'', ''to'' \<mapsto> ''4.12'', ''options'' \<mapsto> ''aws'',
                    ''image_or_version_or_pr'' \<mapsto> ''4.12'']\<rparr>"

definition example_upgrade_request :: Request where
  "example_upgrade_request =
     \<lparr>Event_User = ''U1'', Event_Channel = ''D123'',
      Event_Text = ''test upgrade <https://x|4.11>'',
      Properties = [''from'' \<mapsto> ''4.11'', ''options'' \<mapsto> ''aws'']\<rparr>"

definition example_test_request :: "string \<Rightarrow> Request" where
  "example_test_request name =
     \<lparr>Event_User = ''U1'', Event_Channel = ''D123'',
      Event_Text = ''test'',
      Properties = [''name'' \<mapsto> name, ''image_or_version_or_pr'' \<mapsto> ''4.12'']\<rparr>"

lemma lookup_update: "lookup (AList.update k v m) k = v"
  by (simp add: lookup_def update_conv')

lemma lookup_absent: "map_of m k = None \<Longrightarrow> lookup m k = []"
  by (simp add: lookup_def)

lemma Contains_Nil_upgrade: "\<not> Contains [] ''-upgrade''"
  by (simp add: Contains_def)

lemma isDirectMessage_iff: "isDirectMessage channel \<longleftrightarrow> (\<exists>rest. channel = CHR ''D'' # rest)"
  by (cases channel) (auto simp: isDirectMessage_def)

lemma reply_result_no_call: "\<forall>e \<in> set (reply_result r). \<not> is_call e"
  by (cases r) (simp_all add: reply_result_def)

text \<open>
  Claim C8. When the channel of the request does not start with \<open>D\<close>, each of the
  handlers of launch, refresh, done, auth, test upgrade, test, build and
  workflow-launch replies that the command is accepted by direct message only, and
  does nothing else: whatever the parameters are, no parse error is reported and the
  job manager is not called.
\<close>

theorem direct_message_only:
  assumes "\<not> isDirectMessage (Event_Channel request)"
  shows
    "launch_handler g manager request =
       [Reply ''this command is only accepted via direct message''] \<and>
     refresh_handler manager request = [Reply ''you must direct message me this request''] \<and>
     done_handler manager request = [Reply ''you must direct message me this request''] \<and>
     auth_handler rt manager request = [Reply ''you must direct message me this request''] \<and>
     test_upgrade_handler g manager request =
       [Reply ''this command is only accepted via direct message''] \<and>
     test_handler g manager request =
       [Reply ''this command is only accepted via direct message''] \<and>
     build_handler g manager request =
       [Reply ''this command is only accepted via direct message''] \<and>
     workflow_launch_handler g Workflows manager request =
       [Reply ''this command is only accepted via direct message''] \<and>
     (\<nexists>rest. Event_Channel request = CHR ''D'' # rest)"
proof -
  have l: "launch_handler g manager request =
       [Reply ''this command is only accepted via direct message'']"
    using assms by (simp add: launch_handler_def)
  have r: "refresh_handler manager request = [Reply ''you must direct message me this request'']"
    using assms by (simp add: refresh_handler_def)
  have d: "done_handler manager request = [Reply ''you must direct message me this request'']"
    using assms by (simp add: done_handler_def)
  have a: "auth_handler rt manager request = [Reply ''you must direct message me this request'']"
    using assms by (simp add: auth_handler_def)
  have u: "test_upgrade_handler g manager request =
       [Reply ''this command is only accepted via direct message'']"
    using assms by (simp add: test_upgrade_handler_def)
  have t: "test_handler g manager request =
       [Reply ''this command is only accepted via direct message'']"
    using assms by (simp add: test_handler_def)
  have b: "build_handler g manager request =
       [Reply ''this command is only accepted via direct message'']"
    using assms by (simp add: build_handler_def)
  have w: "workflow_launch_handler g Workflows manager request =
       [Reply ''this command is only accepted via direct message'']"
    using assms by (simp add: workflow_launch_handler_def)
  have c: "\<nexists>rest. Event_Channel request = CHR ''D'' # rest"
    using assms by (simp add: isDirectMessage_iff)
  from l r d a u t b w c show ?thesis by (intro conjI)
qed

theorem direct_message_only_witness:
  "\<not> isDirectMessage (Event_Channel (example_request\<lparr>Event_Channel := ''C042''\<rparr>)) \<and>
   launch_handler example_globals example_manager (example_request\<lparr>Event_Channel := ''C042''\<rparr>) =
     [Reply ''this command is only accepted via direct message''] \<and>
   auth_handler example_runtime example_manager (example_request\<lparr>Event_Channel := ''C042''\<rparr>) =
     [Reply ''you must direct message me this request'']"
proof -
  have h: "\<not> isDirectMessage (Event_Channel (example_request\<lparr>Event_Channel := ''C042''\<rparr>))"
    by (simp add: isDirectMessage_def)
  note t = direct_message_only[OF h, of example_globals example_manager example_runtime]
  from h t[THEN conjunct1] t[THEN conjunct2, THEN conjunct2, THEN conjunct2, THEN conjunct1]
  show ?thesis by (intro conjI)
qed

text \<open>
  Claim C6. In the upgrade command, once the channel is a direct message, the "from"
  list is parsed and not empty, and the "to" list and the options are parsed: the
  resolved test is "e2e-upgrade" when the options give none (in particular when the
  key is absent) and the given one otherwise; when it does not contain "-upgrade" the
  request is rejected with a reply and the manager is not called; otherwise the
  manager is called with the inputs "from" and "to", where "to" is the "from" list
  itself when "to" is empty, and with the resolved test under the key \<open>test\<close>. In the
  test command a suite name that contains "-upgrade" never reaches the manager, and
  when the other arguments parse the last reply is the instruction to use the
  upgrade command.
\<close>

theorem upgrade_suite_rules:
  "(isDirectMessage (Event_Channel request) \<and>
    parseImageInput (StringParam request ''from'' []) = Inr from_items \<and> from_items \<noteq> [] \<and>
    parseImageInput (StringParam request ''to'' []) = Inr to_items \<and>
    parseOptions g (StringParam request ''options'' []) = Inr (platform, architecture, params) \<longrightarrow>
      (let test = (if lookup params ''test'' = [] then ''e2e-upgrade''
                   else lookup params ''test'');
           req = \<lparr>JobRequest.OriginalMessage = stripLinks (Event_Text request),
                  User = Event_User request,
                  Inputs = [from_items, if to_items = [] then from_items else to_items],
                  Type = JobTypeUpgrade,
                  Channel = Event_Channel request,
                  Platform = platform,
                  JobParams = (if lookup params ''test'' = []
                               then AList.update ''test'' ''e2e-upgrade'' params else params),
                  Architecture = architecture,
                  WorkflowName = []\<rparr>
       in (map_of params ''test'' = None \<longrightarrow> test = ''e2e-upgrade'') \<and>
          lookup (JobParams req) ''test'' = test \<and>
          test_upgrade_handler g manager request =
            (if Contains test ''-upgrade''
             then CallLaunchJobForUser req # reply_result (LaunchJobForUser manager req)
             else [Reply ''Only upgrade type tests may be run from this command'']))) \<and>
   (Contains (StringParam request ''name'' []) ''-upgrade'' \<longrightarrow>
      (\<forall>e \<in> set (test_handler g manager request). \<not> is_call e) \<and>
      (isDirectMessage (Event_Channel request) \<and>
       parseImageInput (StringParam request ''image_or_version_or_pr'' []) = Inr from_items \<and>
       from_items \<noteq> [] \<and>
       parseOptions g (StringParam request ''options'' []) =
         Inr (platform, architecture, params) \<longrightarrow>
         last (test_handler g manager request) =
           Reply (''Upgrade type tests require the '' @ [CHR 0x27] @ ''test upgrade'' @
                  [CHR 0x27] @ '' command'')))"
proof -
  have upgrade: "let test = (if lookup params ''test'' = [] then ''e2e-upgrade''
                   else lookup params ''test'');
           req = \<lparr>JobRequest.OriginalMessage = stripLinks (Event_Text request),
                  User = Event_User request,
                  Inputs = [from_items, if to_items = [] then from_items else to_items],
                  Type = JobTypeUpgrade,
                  Channel = Event_Channel request,
                  Platform = platform,
                  JobParams = (if lookup params ''test'' = []
                               then AList.update ''test'' ''e2e-upgrade'' params else params),
                  Architecture = architecture,
                  WorkflowName = []\<rparr>
       in (map_of params ''test'' = None \<longrightarrow> test = ''e2e-upgrade'') \<and>
          lookup (JobParams req) ''test'' = test \<and>
          test_upgrade_handler g manager request =
            (if Contains test ''-upgrade''
             then CallLaunchJobForUser req # reply_result (LaunchJobForUser manager req)
             else [Reply ''Only upgrade type tests may be run from this command''])"
    if "isDirectMessage (Event_Channel request)"
      "parseImageInput (StringParam request ''from'' []) = Inr from_items" "from_items \<noteq> []"
      "parseImageInput (StringParam request ''to'' []) = Inr to_items"
      "parseOptions g (StringParam request ''options'' []) = Inr (platform, architecture, params)"
    using that
    by (simp add: test_upgrade_handler_def Let_def lookup_update lookup_absent)
  have nocall: "\<forall>e \<in> set (test_handler g manager request). \<not> is_call e"
    if "Contains (StringParam request ''name'' []) ''-upgrade''"
    using that
    by (auto simp: test_handler_def Let_def lookup_update split: sum.splits)
  have rejected: "last (test_handler g manager request) =
           Reply (''Upgrade type tests require the '' @ [CHR 0x27] @ ''test upgrade'' @
                  [CHR 0x27] @ '' command'')"
    if "Contains (StringParam request ''name'' []) ''-upgrade''"
      "isDirectMessage (Event_Channel request)"
      "parseImageInput (StringParam request ''image_or_version_or_pr'' []) = Inr from_items"
      "from_items \<noteq> []"
      "parseOptions g (StringParam request ''options'' []) = Inr (platform, architecture, params)"
    using that
    by (simp add: test_handler_def Let_def lookup_update)
  from upgrade nocall rejected show ?thesis by blast
qed

theorem upgrade_suite_rules_witness:
  "isDirectMessage (Event_Channel example_upgrade_request) \<and>
   parseImageInput (StringParam example_upgrade_request ''from'' []) = Inr [''4.11''] \<and>
   parseImageInput (StringParam example_upgrade_request ''to'' []) = Inr [] \<and>
   parseOptions example_globals (StringParam example_upgrade_request ''options'' []) =
     Inr (''aws'', ''amd64'', []) \<and>
   test_upgrade_handler example_globals example_manager example_upgrade_request =
     [CallLaunchJobForUser
        \<lparr>JobRequest.OriginalMessage = ''test upgrade 4.11'', User = ''U1'',
         Inputs = [[''4.11''], [''4.11'']], Type = JobTypeUpgrade, Channel = ''D123'',
         Platform = ''aws'', JobParams = [(''test'', ''e2e-upgrade'')],
         Architecture = ''amd64'', WorkflowName = []\<rparr>,
      Reply ''job started''] \<and>
   Contains (StringParam (example_test_request ''e2e-upgrade'') ''name'' []) ''-upgrade'' \<and>
   filter is_call (test_handler example_globals example_manager
     (example_test_request ''e2e-upgrade'')) = [] \<and>
   last (test_handler example_globals example_manager (example_test_request ''e2e-upgrade'')) =
     Reply (''Upgrade type tests require the '' @ [CHR 0x27] @ ''test upgrade'' @
            [CHR 0x27] @ '' command'')"
proof -
  have sp: "StringParam example_upgrade_request ''from'' [] = ''4.11''"
    "StringParam example_upgrade_request ''to'' [] = []"
    "StringParam example_upgrade_request ''options'' [] = ''aws''"
    by (simp_all add: StringParam_def example_upgrade_request_def)
  have p1: "parseImageInput ''4.11'' = Inr [''4.11'']" by code_simp
  have p2: "parseImageInput [] = Inr []" by code_simp
  have p3: "parseOptions example_globals ''aws'' = Inr (''aws'', ''amd64'', [])" by code_simp
  have c1: "Contains ''e2e-upgrade'' ''-upgrade''" by code_simp
  have s1: "stripLinks ''test upgrade <https://x|4.11>'' = ''test upgrade 4.11''" by code_simp
  have h: "isDirectMessage (Event_Channel example_upgrade_request) \<and>
      parseImageInput (StringParam example_upgrade_request ''from'' []) = Inr [''4.11''] \<and>
      [''4.11''] \<noteq> [] \<and>
      parseImageInput (StringParam example_upgrade_request ''to'' []) = Inr [] \<and>
      parseOptions example_globals (StringParam example_upgrade_request ''options'' []) =
        Inr (''aws'', ''amd64'', [])"
  proof -
    have "isDirectMessage (Event_Channel example_upgrade_request)"
      by (simp add: isDirectMessage_def example_upgrade_request_def)
    then show ?thesis by (simp add: sp p1 p2 p3)
  qed
  note up = upgrade_suite_rules[of example_upgrade_request "[''4.11'']" "[]" example_globals
      "''aws''" "''amd64''" "[]" example_manager, THEN conjunct1, rule_format, OF h]
  have a: "test_upgrade_handler example_globals example_manager example_upgrade_request =
     [CallLaunchJobForUser
        \<lparr>JobRequest.OriginalMessage = ''test upgrade 4.11'', User = ''U1'',
         Inputs = [[''4.11''], [''4.11'']], Type = JobTypeUpgrade, Channel = ''D123'',
         Platform = ''aws'', JobParams = [(''test'', ''e2e-upgrade'')],
         Architecture = ''amd64'', WorkflowName = []\<rparr>,
      Reply ''job started'']"
    using up
    by (simp add: Let_def lookup_def c1 reply_result_def example_manager_def
        example_upgrade_request_def s1)
  let ?t = "example_test_request ''e2e-upgrade''"
  have tp: "StringParam ?t ''name'' [] = ''e2e-upgrade''"
    "StringParam ?t ''image_or_version_or_pr'' [] = ''4.12''"
    "StringParam ?t ''options'' [] = []"
    by (simp_all add: StringParam_def example_test_request_def)
  have q1: "parseImageInput ''4.12'' = Inr [''4.12'']" by code_simp
  have q2: "parseOptions example_globals [] = Inr (''gcp'', ''amd64'', [])" by code_simp
  have c: "Contains (StringParam ?t ''name'' []) ''-upgrade''"
    by (simp add: tp c1)
  have h2: "isDirectMessage (Event_Channel ?t) \<and>
      parseImageInput (StringParam ?t ''image_or_version_or_pr'' []) = Inr [''4.12''] \<and>
      [''4.12''] \<noteq> [] \<and>
      parseOptions example_globals (StringParam ?t ''options'' []) =
        Inr (''gcp'', ''amd64'', [])"
  proof -
    have "isDirectMessage (Event_Channel ?t)"
      by (simp add: isDirectMessage_def example_test_request_def)
    then show ?thesis by (simp add: tp q1 q2)
  qed
  note tst = upgrade_suite_rules[of ?t "[''4.12'']" "[]" example_globals
      "''gcp''" "''amd64''" "[]" example_manager, THEN conjunct2, rule_format, OF c]
  have b: "filter is_call (test_handler example_globals example_manager ?t) = []"
    using tst[THEN conjunct1] by (simp add: filter_empty_conv)
  have l: "last (test_handler example_globals example_manager ?t) =
     Reply (''Upgrade type tests require the '' @ [CHR 0x27] @ ''test upgrade'' @
            [CHR 0x27] @ '' command'')"
    using tst[THEN conjunct2, rule_format, OF h2] .
  from h a c b l show ?thesis by simp
qed

text \<open>
  Claim C9. When the test command is invoked by direct message with a parsed,
  non-empty input list, parsed options and an empty suite name, the handler replies
  "you must specify the name of a test: ..." and goes on: it warns about a custom
  test name (unless the empty name is a supported test), sets the parameter \<open>test\<close>
  to the empty string and calls \<open>LaunchJobForUser\<close> with it, then replies with the
  manager's answer.
\<close>

theorem test_without_name:
  assumes "isDirectMessage (Event_Channel request)"
    and "parseImageInput (StringParam request ''image_or_version_or_pr'' []) = Inr from_items"
    and "from_items \<noteq> []"
    and "StringParam request ''name'' [] = []"
    and "parseOptions g (StringParam request ''options'' []) = Inr (platform, architecture, params)"
  shows
    "(let req = \<lparr>JobRequest.OriginalMessage = stripLinks (Event_Text request),
                 User = Event_User request,
                 Inputs = [from_items],
                 Type = JobTypeTest,
                 Channel = Event_Channel request,
                 Platform = platform,
                 JobParams = AList.update ''test'' [] params,
                 Architecture = architecture,
                 WorkflowName = []\<rparr>
      in test_handler g manager request =
           [Reply (''you must specify the name of a test: '' @
              Join (codeSlice (supportedTests g)) '', '')] @
           (if contains (supportedTests g) [] then []
            else [Reply (''warning: You are using a custom test name, may not be supported for all platforms: '' @
                    Join (codeSlice (supportedTests g)) '', '')]) @
           [CallLaunchJobForUser req] @ reply_result (LaunchJobForUser manager req) \<and>
         map_of (JobParams req) ''test'' = Some [] \<and>
         lookup (JobParams req) ''test'' = [])"
  using assms
  by (simp add: test_handler_def Let_def lookup_update Contains_Nil_upgrade update_Some_unfold)

theorem test_without_name_witness:
  "isDirectMessage (Event_Channel (example_test_request [])) \<and>
   parseImageInput (StringParam (example_test_request []) ''image_or_version_or_pr'' []) =
     Inr [''4.12''] \<and>
   StringParam (example_test_request []) ''name'' [] = [] \<and>
   parseOptions example_globals (StringParam (example_test_request []) ''options'' []) =
     Inr (''gcp'', ''amd64'', []) \<and>
   test_handler example_globals example_manager (example_test_request []) =
     [Reply (''you must specify the name of a test: '' @
        Join (codeSlice (supportedTests example_globals)) '', ''),
      Reply (''warning: You are using a custom test name, may not be supported for all platforms: '' @
        Join (codeSlice (supportedTests example_globals)) '', ''),
      CallLaunchJobForUser
        \<lparr>JobRequest.OriginalMessage = ''test'', User = ''U1'',
         Inputs = [[''4.12'']], Type = JobTypeTest, Channel = ''D123'',
         Platform = ''gcp'', JobParams = [(''test'', [])],
         Architecture = ''amd64'', WorkflowName = []\<rparr>,
      Reply ''job started'']"
proof -
  let ?t = "example_test_request []"
  have tp: "StringParam ?t ''name'' [] = []"
    "StringParam ?t ''image_or_version_or_pr'' [] = ''4.12''"
    "StringParam ?t ''options'' [] = []"
    by (simp_all add: StringParam_def example_test_request_def)
  have q1: "parseImageInput ''4.12'' = Inr [''4.12'']" by code_simp
  have q2: "parseOptions example_globals [] = Inr (''gcp'', ''amd64'', [])" by code_simp
  have s1: "stripLinks ''test'' = ''test''" by code_simp
  have h1: "isDirectMessage (Event_Channel ?t)"
    by (simp add: isDirectMessage_def example_test_request_def)
  have h2: "parseImageInput (StringParam ?t ''image_or_version_or_pr'' []) = Inr [''4.12'']"
    by (simp add: tp q1)
  have h3: "[''4.12''] \<noteq> ([] :: string list)" by simp
  have h5: "parseOptions example_globals (StringParam ?t ''options'' []) =
      Inr (''gcp'', ''amd64'', [])"
    by (simp add: tp q2)
  have nt: "\<not> contains (supportedTests example_globals) []"
    by (simp add: contains_def example_globals_def)
  have "test_handler example_globals example_manager ?t =
     [Reply (''you must specify the name of a test: '' @
        Join (codeSlice (supportedTests example_globals)) '', ''),
      Reply (''warning: You are using a custom test name, may not be supported for all platforms: '' @
        Join (codeSlice (supportedTests example_globals)) '', ''),
      CallLaunchJobForUser
        \<lparr>JobRequest.OriginalMessage = ''test'', User = ''U1'',
         Inputs = [[''4.12'']], Type = JobTypeTest, Channel = ''D123'',
         Platform = ''gcp'', JobParams = [(''test'', [])],
         Architecture = ''amd64'', WorkflowName = []\<rparr>,
      Reply ''job started'']"
    using test_without_name[OF h1 h2 h3 tp(1) h5, of example_manager] nt
    by (simp add: Let_def reply_result_def example_manager_def example_test_request_def s1)
  with h1 h2 tp(1) h5 show ?thesis by simp
qed

end
